theory Spec2Isabelle
  imports Complex_Main
begin

section \<open>Strings, code points and the Unicode tables the verifier relies on\<close>

text \<open>
  The verifier (\<^verbatim>\<open>backend/app/report_verifier.py\<close>) works on Python \<^verbatim>\<open>str\<close> values,
  which are sequences of Unicode code points. A string is therefore a list of code
  points (natural numbers), so that \<open>length\<close>, slicing and indexing count what Python
  counts. ASCII literals are written with \<open>asc\<close>; Arabic literals are given by their
  code points. The interpreter's own tables (decimal digits, white space, case folding)
  are those of CPython 3.11 (Unicode 14.0).
\<close>

type_synonym pystr = "nat list"

definition asc :: "string \<Rightarrow> pystr" where
  "asc s = map of_char s"

text \<open>
  The code points of general category Nd come in runs of ten, \<open>z, \<dots>, z + 9\<close>, with digit
  values \<open>0, \<dots>, 9\<close>; \<open>nd_zeros\<close> lists the first code point of every run. Both the
  \<^verbatim>\<open>\d\<close> of \<^verbatim>\<open>re\<close> and \<^verbatim>\<open>int()\<close> use this table.
\<close>

definition nd_zeros :: "nat list" where
  "nd_zeros =
    [0x30, 0x660, 0x6F0, 0x7C0, 0x966, 0x9E6, 0xA66, 0xAE6, 0xB66, 0xBE6, 0xC66, 0xCE6,
     0xD66, 0xDE6, 0xE50, 0xED0, 0xF20, 0x1040, 0x1090, 0x17E0, 0x1810, 0x1946, 0x19D0,
     0x1A80, 0x1A90, 0x1B50, 0x1BB0, 0x1C40, 0x1C50, 0xA620, 0xA8D0, 0xA900, 0xA9D0,
     0xA9F0, 0xAA50, 0xABF0, 0xFF10, 0x104A0, 0x10D30, 0x11066, 0x110F0, 0x11136,
     0x111D0, 0x112F0, 0x11450, 0x114D0, 0x11650, 0x116C0, 0x11730, 0x118E0, 0x11950,
     0x11C50, 0x11D50, 0x11DA0, 0x16A60, 0x16AC0, 0x16B50,
     0x1D7CE, 0x1D7D8, 0x1D7E2, 0x1D7EC, 0x1D7F6,
     0x1E140, 0x1E2F0, 0x1E950, 0x1FBF0]"

definition decimal_value :: "nat \<Rightarrow> nat option" where
  "decimal_value c =
     (case filter (\<lambda>z. z \<le> c \<and> c < z + 10) nd_zeros of
        [] \<Rightarrow> None
      | z # _ \<Rightarrow> Some (c - z))"

definition is_digit :: "nat \<Rightarrow> bool" where
  "is_digit c = (decimal_value c \<noteq> None)"

text \<open>White space as \<^verbatim>\<open>str.isspace\<close> and the \<^verbatim>\<open>\s\<close> of \<^verbatim>\<open>re\<close> see it.\<close>

definition unicode_space :: "nat \<Rightarrow> bool" where
  "unicode_space c =
     ((0x09 \<le> c \<and> c \<le> 0x0D) \<or> (0x1C \<le> c \<and> c \<le> 0x20) \<or> c = 0x85 \<or> c = 0xA0
      \<or> c = 0x1680 \<or> (0x2000 \<le> c \<and> c \<le> 0x200A) \<or> c = 0x2028 \<or> c = 0x2029
      \<or> c = 0x202F \<or> c = 0x205F \<or> c = 0x3000)"

text \<open>
  \<^verbatim>\<open>int()\<close> maps every non-ASCII white space to a blank and then skips the C locale's
  white space at both ends, so the four ASCII separators 0x1C..0x1F are not skipped.
\<close>

definition int_space :: "nat \<Rightarrow> bool" where
  "int_space c = (unicode_space c \<and> \<not> (0x1C \<le> c \<and> c \<le> 0x1F))"

definition int_strip :: "pystr \<Rightarrow> pystr" where
  "int_strip s = rev (dropWhile int_space (rev (dropWhile int_space s)))"

text \<open>
  The digits of a decimal literal: at least one digit, single underscores allowed between
  digits only. The flag says whether the previous character was a digit.
\<close>

fun int_digits :: "bool \<Rightarrow> pystr \<Rightarrow> nat list option" where
  "int_digits prev [] = (if prev then Some [] else None)"
| "int_digits prev (c # cs) =
     (if c = 0x5F then (if prev then int_digits False cs else None)
      else (case decimal_value c of
              None \<Rightarrow> None
            | Some d \<Rightarrow> map_option ((#) d) (int_digits True cs)))"

text \<open>
  The interpreter refuses to convert between an integer and a decimal string of more than
  \<^verbatim>\<open>sys.get_int_max_str_digits()\<close> digits, in either direction, with a \<^verbatim>\<open>ValueError\<close>. The
  limit is 4300 unless it is set otherwise, and the program never sets it.
\<close>

definition int_max_str_digits :: nat where
  "int_max_str_digits = 4300"

text \<open>
  \<^verbatim>\<open>int(s)\<close> in base ten; \<open>None\<close> is the \<^verbatim>\<open>ValueError\<close>. The digits counted against the limit
  are the digit characters of the literal, leading zeros included, underscores and sign
  excluded. Python's integers themselves are unbounded.
\<close>

definition py_int :: "pystr \<Rightarrow> int option" where
  "py_int s =
     (let t = int_strip s;
          neg = (t \<noteq> [] \<and> hd t = 0x2D);
          body = (if t \<noteq> [] \<and> (hd t = 0x2D \<or> hd t = 0x2B) then tl t else t)
      in case int_digits False body of
           None \<Rightarrow> None
         | Some ds \<Rightarrow>
             if int_max_str_digits < length ds then None
             else (let n = int (foldl (\<lambda>a d. 10 * a + d) 0 ds)
                   in Some (if neg then - n else n)))"

text \<open>The decimal digits of a natural number, and the decimal form of an integer.\<close>

fun dec_digits :: "nat \<Rightarrow> pystr" where
  "dec_digits n = (if n < 10 then [0x30 + n] else dec_digits (n div 10) @ [0x30 + n mod 10])"

declare dec_digits.simps [simp del]

definition int_repr :: "int \<Rightarrow> pystr" where
  "int_repr i = (if i < 0 then 0x2D # dec_digits (nat (- i)) else dec_digits (nat i))"

text \<open>
  \<^verbatim>\<open>str(n)\<close> of an integer, which is also what the field \<^verbatim>\<open>{n}\<close> of an f-string gives;
  \<open>None\<close> is the \<^verbatim>\<open>ValueError\<close> for an integer of more digits than the limit.
\<close>

definition py_str :: "int \<Rightarrow> pystr option" where
  "py_str i =
     (if int_max_str_digits < length (dec_digits (nat \<bar>i\<bar>)) then None
      else Some (int_repr i))"

text \<open>
  The format \<^verbatim>\<open>{n:02d}\<close>. It is subject to the same limit; the program formats hours and
  minutes read from groups of one or two digits only (an hour is at most 99 + 12), so the
  limit is out of reach there (\<open>time_groups_converted\<close> and \<open>time_label_converted\<close> below)
  and the format is given as a total function.
\<close>

definition fmt_02d :: "int \<Rightarrow> pystr" where
  "fmt_02d i = (let s = int_repr i in replicate (2 - length s) 0x30 @ s)"

text \<open>\<^verbatim>\<open>s.split(sep)\<close> for a one-character separator: never an empty list.\<close>

fun split_on :: "nat \<Rightarrow> pystr \<Rightarrow> pystr list" where
  "split_on sep [] = [[]]"
| "split_on sep (c # cs) =
     (if c = sep then [] # split_on sep cs
      else (case split_on sep cs of
              [] \<Rightarrow> [[c]]
            | p # ps \<Rightarrow> (c # p) # ps))"

datatype exn = ValueError | IndexError

section \<open>The time comparator\<close>

text \<open>
  \<^verbatim>\<open>parts = s.split(":"); int(parts[0]) * 60 + int(parts[1])\<close>, with the exceptions
  Python raises on the way, in the order it raises them.
\<close>

definition hm_minutes :: "pystr \<Rightarrow> exn + int" where
  "hm_minutes s =
     (case split_on 0x3A s of
        [] \<Rightarrow> Inl IndexError
      | p0 # rest \<Rightarrow>
          (case py_int p0 of
             None \<Rightarrow> Inl ValueError
           | Some h \<Rightarrow>
               (case rest of
                  [] \<Rightarrow> Inl IndexError
                | p1 # _ \<Rightarrow>
                    (case py_int p1 of
                       None \<Rightarrow> Inl ValueError
                     | Some m \<Rightarrow> Inr (h * 60 + m)))))"

text \<open>"matches the time range"\<close>
definition msg_time_in_range :: pystr where
  "msg_time_in_range =
     [0x645, 0x637, 0x627, 0x628, 0x642, 0x20, 0x644, 0x644, 0x646, 0x637, 0x627, 0x642,
      0x20, 0x627, 0x644, 0x632, 0x645, 0x646, 0x64A]"

text \<open>
  "outside the range by " \<dots> " hour": the f-string of the mismatch, which raises when the
  number cannot be formatted.
\<close>

definition msg_time_outside :: "int \<Rightarrow> exn + pystr" where
  "msg_time_outside d =
     (case py_str d of
        None \<Rightarrow> Inl ValueError
      | Some ds \<Rightarrow>
          Inr ([0x62E, 0x627, 0x631, 0x62C, 0x20, 0x627, 0x644, 0x646, 0x637, 0x627, 0x642,
                0x20, 0x628, 0x640, 0x20] @ ds @ [0x20, 0x633, 0x627, 0x639, 0x629]))"

text \<open>"could not compare"\<close>
definition msg_cannot_compare :: pystr where
  "msg_cannot_compare =
     [0x62A, 0x639, 0x630, 0x631, 0x20, 0x627, 0x644, 0x645, 0x642, 0x627, 0x631, 0x646,
      0x629]"

text \<open>The body of the \<^verbatim>\<open>try\<close> of \<^verbatim>\<open>compare_times\<close>.\<close>

definition compare_times_try :: "pystr \<Rightarrow> pystr \<Rightarrow> pystr \<Rightarrow> int \<Rightarrow> exn + bool \<times> pystr" where
  "compare_times_try extracted user_start user_end max_diff_hours =
     (case hm_minutes extracted of
        Inl e \<Rightarrow> Inl e
      | Inr ext_minutes \<Rightarrow>
     (case hm_minutes user_start of
        Inl e \<Rightarrow> Inl e
      | Inr start_minutes \<Rightarrow>
     (case hm_minutes user_end of
        Inl e \<Rightarrow> Inl e
      | Inr end_minutes \<Rightarrow>
          (let tolerance = max_diff_hours * 60 in
           if start_minutes - tolerance \<le> ext_minutes \<and> ext_minutes \<le> end_minutes + tolerance
           then Inr (True, msg_time_in_range)
           else let diff = min \<bar>ext_minutes - start_minutes\<bar> \<bar>ext_minutes - end_minutes\<bar> div 60
                in (case msg_time_outside diff of
                      Inl e \<Rightarrow> Inl e
                    | Inr msg \<Rightarrow> Inr (False, msg))))))"

text \<open>\<^verbatim>\<open>compare_times\<close>: the bare \<^verbatim>\<open>except\<close> turns every exception into a result.\<close>

definition compare_times :: "pystr \<Rightarrow> pystr \<Rightarrow> pystr \<Rightarrow> int \<Rightarrow> bool \<times> pystr" where
  "compare_times extracted user_start user_end max_diff_hours =
     (case compare_times_try extracted user_start user_end max_diff_hours of
        Inl _ \<Rightarrow> (False, msg_cannot_compare)
      | Inr r \<Rightarrow> r)"

section \<open>Regular expressions as the verifier uses them\<close>

text \<open>
  The patterns of the verifier use literals, character classes, bounded and unbounded
  repetition of a single class (greedy, and lazy once), alternation, optional parts and
  capture groups. \<^verbatim>\<open>re\<close> is a backtracking matcher: the model computes, for a pattern at a
  position, every way to match in the order in which the matcher tries them, so the head
  of the list is the match Python reports.

  Under \<^verbatim>\<open>re.IGNORECASE\<close> a pattern character matches a text character when both fold to the
  same character. All literals of this program's patterns are ASCII or Arabic (caseless)
  characters, for which folding is: ASCII upper case to lower case, and the four
  characters U+0130, U+0131 (to \<open>i\<close>), U+017F (to \<open>s\<close>) and U+212A (to \<open>k\<close>).
\<close>

definition fold_case :: "nat \<Rightarrow> nat" where
  "fold_case c =
     (if 0x41 \<le> c \<and> c \<le> 0x5A then c + 32
      else if c = 0x130 \<or> c = 0x131 then 0x69
      else if c = 0x17F then 0x73
      else if c = 0x212A then 0x6B
      else c)"

datatype cc =
    Chr nat
  | Digit
  | Space
  | Rng nat nat
  | OneOf "nat list"
  | NotC cc

fun cc_match :: "bool \<Rightarrow> cc \<Rightarrow> nat \<Rightarrow> bool" where
  "cc_match ic (Chr p) c = (if ic then fold_case c = fold_case p else c = p)"
| "cc_match ic Digit c = is_digit c"
| "cc_match ic Space c = unicode_space c"
| "cc_match ic (Rng lo hi) c =
     (if ic then list_ex (\<lambda>p. fold_case c = fold_case p) [lo..<Suc hi]
      else lo \<le> c \<and> c \<le> hi)"
| "cc_match ic (OneOf ps) c =
     (if ic then list_ex (\<lambda>p. fold_case c = fold_case p) ps else c \<in> set ps)"
| "cc_match ic (NotC k) c = (\<not> cc_match ic k c)"

datatype re =
    Eps
  | C cc
  | Rep cc nat "nat option" bool
  | Seq re re
  | Alt re re
  | Grp nat re
  | Opt re

type_synonym caps = "(nat \<times> pystr) list"

text \<open>
  The numbers of characters a repetition \<open>k{lo,hi}\<close> may take at the head of \<open>s\<close>, in the
  order tried: longest first when greedy, shortest first when lazy.
\<close>

definition rep_counts :: "bool \<Rightarrow> cc \<Rightarrow> nat \<Rightarrow> nat option \<Rightarrow> bool \<Rightarrow> pystr \<Rightarrow> nat list" where
  "rep_counts ic k lo hi greedy s =
     (let run = length (takeWhile (cc_match ic k) s);
          n = (case hi of None \<Rightarrow> run | Some h \<Rightarrow> min h run)
      in if greedy then rev [lo..<Suc n] else [lo..<Suc n])"

fun rmatch :: "bool \<Rightarrow> re \<Rightarrow> pystr \<Rightarrow> caps \<Rightarrow> (pystr \<times> caps) list" where
  "rmatch ic Eps s g = [(s, g)]"
| "rmatch ic (C k) s g =
     (case s of
        [] \<Rightarrow> []
      | c # cs \<Rightarrow> if cc_match ic k c then [(cs, g)] else [])"
| "rmatch ic (Rep k lo hi greedy) s g =
     map (\<lambda>n. (drop n s, g)) (rep_counts ic k lo hi greedy s)"
| "rmatch ic (Seq a b) s g =
     concat (map (\<lambda>m. rmatch ic b (fst m) (snd m)) (rmatch ic a s g))"
| "rmatch ic (Alt a b) s g = rmatch ic a s g @ rmatch ic b s g"
| "rmatch ic (Grp n a) s g =
     map (\<lambda>m. (fst m, (n, take (length s - length (fst m)) s) # snd m)) (rmatch ic a s g)"
| "rmatch ic (Opt a) s g = rmatch ic a s g @ [(s, g)]"

text \<open>\<^verbatim>\<open>re.search\<close>: the first position where the pattern matches, and the groups there.\<close>

fun re_search :: "bool \<Rightarrow> re \<Rightarrow> pystr \<Rightarrow> caps option" where
  "re_search ic r [] =
     (case rmatch ic r [] [] of
        [] \<Rightarrow> None
      | m # _ \<Rightarrow> Some (snd m))"
| "re_search ic r (c # cs) =
     (case rmatch ic r (c # cs) [] of
        [] \<Rightarrow> re_search ic r cs
      | m # _ \<Rightarrow> Some (snd m))"

text \<open>\<^verbatim>\<open>match.group(n)\<close>: \<open>None\<close> for a group that took no part in the match.\<close>

definition grp :: "caps \<Rightarrow> nat \<Rightarrow> pystr option" where
  "grp g n = map_of g n"

definition lit :: "pystr \<Rightarrow> re" where
  "lit s = foldr (\<lambda>c. Seq (C (Chr c))) s Eps"

definition seqs :: "re list \<Rightarrow> re" where
  "seqs rs = foldr Seq rs Eps"

definition alts :: "re \<Rightarrow> re list \<Rightarrow> re" where
  "alts r rs = foldl Alt r rs"

text \<open>The test \<^verbatim>\<open>if re.search(pattern, text, re.IGNORECASE)\<close> for a literal pattern.\<close>

definition found :: "pystr \<Rightarrow> pystr \<Rightarrow> bool" where
  "found pattern text = (re_search True (lit pattern) text \<noteq> None)"

section \<open>The source detector\<close>

definition najm :: pystr where
  "najm = [0x646, 0x62C, 0x645]"

definition traffic :: pystr where
  "traffic = [0x627, 0x644, 0x645, 0x631, 0x648, 0x631]"

definition najm_patterns :: "pystr list" where
  "najm_patterns =
     [najm,
      asc ''najm'',
      [0x62A, 0x642, 0x631, 0x64A, 0x631, 0x20, 0x62A, 0x62D, 0x62F, 0x64A, 0x62F,
       0x20, 0x627, 0x644, 0x645, 0x633, 0x624, 0x648, 0x644, 0x64A, 0x629],
      asc ''Liability Determination Report'',
      [0x627, 0x644, 0x62A, 0x642, 0x631, 0x64A, 0x631, 0x20, 0x627, 0x644, 0x646,
       0x647, 0x627, 0x626, 0x64A],
      asc ''Final Report'',
      [0x631, 0x642, 0x645, 0x20, 0x627, 0x644, 0x62D, 0x627, 0x644, 0x629],
      asc ''Case Number'',
      [0x648, 0x642, 0x62A, 0x20, 0x627, 0x644, 0x62D, 0x627, 0x62F, 0x62B],
      asc ''Accident Time'',
      [0x645, 0x643, 0x627, 0x646, 0x20, 0x627, 0x644, 0x62D, 0x627, 0x62F, 0x62B],
      asc ''Accident Location'',
      [0x623, 0x62D, 0x62F, 0x627, 0x62B, 0x64A, 0x627, 0x62A, 0x20, 0x627, 0x644,
       0x62D, 0x627, 0x62F, 0x62B],
      asc ''Coordinate'',
      [0x646, 0x633, 0x628, 0x629, 0x20, 0x627, 0x644, 0x645, 0x633, 0x624, 0x648,
       0x644, 0x64A, 0x629],
      [0x633, 0x628, 0x628, 0x20, 0x627, 0x644, 0x62D, 0x627, 0x62F, 0x62B],
      asc ''Cause of Acc'']"

definition traffic_patterns :: "pystr list" where
  "traffic_patterns =
     [traffic,
      [0x625, 0x62F, 0x627, 0x631, 0x629, 0x20, 0x627, 0x644, 0x645, 0x631, 0x648, 0x631],
      asc ''traffic'',
      [0x627, 0x644, 0x625, 0x62F, 0x627, 0x631, 0x629, 0x20, 0x627, 0x644, 0x639,
       0x627, 0x645, 0x629, 0x20, 0x644, 0x644, 0x645, 0x631, 0x648, 0x631],
      [0x645, 0x62E, 0x627, 0x644, 0x641, 0x629, 0x20, 0x645, 0x631, 0x648, 0x631,
       0x64A, 0x629],
      [0x62A, 0x642, 0x631, 0x64A, 0x631, 0x20, 0x645, 0x631, 0x648, 0x631, 0x64A]]"

text \<open>The first loop of \<^verbatim>\<open>detect_report_source\<close>: one point for every pattern found.\<close>

definition najm_score :: "pystr \<Rightarrow> nat" where
  "najm_score text =
     foldl (\<lambda>score pattern. if found pattern text then score + 1 else score) 0 najm_patterns"

text \<open>The second loop returns at the first traffic pattern found.\<close>

fun traffic_loop :: "pystr list \<Rightarrow> pystr \<Rightarrow> bool" where
  "traffic_loop [] text = False"
| "traffic_loop (pattern # patterns) text =
     (if found pattern text then True else traffic_loop patterns text)"

definition detect_report_source :: "pystr \<Rightarrow> bool \<times> pystr" where
  "detect_report_source text =
     (if 2 \<le> najm_score text then (True, najm)
      else if traffic_loop traffic_patterns text then (True, traffic)
      else if 1 \<le> najm_score text then (True, najm)
      else (False, []))"

section \<open>Calendar dates and the date comparator\<close>

text \<open>
  Every \<^verbatim>\<open>datetime\<close> the verifier builds is a date at midnight, so a \<^verbatim>\<open>datetime\<close> is
  modelled by its year, month and day. The constructor raises \<^verbatim>\<open>ValueError\<close> outside the
  calendar (\<open>None\<close> here), and the difference of two such values in days is the difference
  of their proleptic Gregorian ordinals, computed as the \<^verbatim>\<open>datetime\<close> module does.
\<close>

datatype date = Date (year: int) (month: int) (day: int)

definition is_leap :: "int \<Rightarrow> bool" where
  "is_leap y = (y mod 4 = 0 \<and> (y mod 100 \<noteq> 0 \<or> y mod 400 = 0))"

definition days_in_month :: "int \<Rightarrow> int \<Rightarrow> int" where
  "days_in_month y m =
     (if m = 2 \<and> is_leap y then 29
      else [0, 31, 28, 31, 30, 31, 30, 31, 31, 30, 31, 30, 31] ! nat m)"

definition datetime :: "int \<Rightarrow> int \<Rightarrow> int \<Rightarrow> date option" where
  "datetime y m d =
     (if 1 \<le> y \<and> y \<le> 9999 \<and> 1 \<le> m \<and> m \<le> 12 \<and> 1 \<le> d \<and> d \<le> days_in_month y m
      then Some (Date y m d) else None)"

definition days_before_year :: "int \<Rightarrow> int" where
  "days_before_year y = (y - 1) * 365 + (y - 1) div 4 - (y - 1) div 100 + (y - 1) div 400"

definition days_before_month :: "int \<Rightarrow> int \<Rightarrow> int" where
  "days_before_month y m =
     [0, 0, 31, 59, 90, 120, 151, 181, 212, 243, 273, 304, 334] ! nat m
       + (if 2 < m \<and> is_leap y then 1 else 0)"

definition toordinal :: "date \<Rightarrow> int" where
  "toordinal dt = days_before_year (year dt) + days_before_month (year dt) (month dt) + day dt"

text \<open>
  \<^verbatim>\<open>datetime.strptime(s, "%Y-%m-%d")\<close> compiles the format to the regular expression
  \<^verbatim>\<open>(?P<Y>\d\d\d\d)-(?P<m>1[0-2]|0[1-9]|[1-9])-(?P<d>3[0-1]|[1-2]\d|0[1-9]|[1-9]| [1-9])\<close>,
  matches it (ignoring case) at the start of the string, raises \<^verbatim>\<open>ValueError\<close> when there is
  no match or when the match does not reach the end of the string, converts the three
  groups with \<^verbatim>\<open>int\<close> and builds the date.
\<close>

definition ymd_format :: re where
  "ymd_format =
     seqs [Grp 1 (seqs [C Digit, C Digit, C Digit, C Digit]),
           C (Chr 0x2D),
           Grp 2 (alts (seqs [C (Chr 0x31), C (Rng 0x30 0x32)])
                       [seqs [C (Chr 0x30), C (Rng 0x31 0x39)],
                        C (Rng 0x31 0x39)]),
           C (Chr 0x2D),
           Grp 3 (alts (seqs [C (Chr 0x33), C (Rng 0x30 0x31)])
                       [seqs [C (Rng 0x31 0x32), C Digit],
                        seqs [C (Chr 0x30), C (Rng 0x31 0x39)],
                        C (Rng 0x31 0x39),
                        seqs [C (Chr 0x20), C (Rng 0x31 0x39)]])]"

text \<open>The integer value of a group; \<open>None\<close> when the group is missing or is no integer.\<close>

definition grp_int :: "caps \<Rightarrow> nat \<Rightarrow> int option" where
  "grp_int g n = (case grp g n of None \<Rightarrow> None | Some s \<Rightarrow> py_int s)"

definition strptime_ymd :: "pystr \<Rightarrow> exn + date" where
  "strptime_ymd s =
     (case rmatch True ymd_format s [] of
        [] \<Rightarrow> Inl ValueError
      | m # _ \<Rightarrow>
          if fst m \<noteq> [] then Inl ValueError
          else (case (grp_int (snd m) 1, grp_int (snd m) 2, grp_int (snd m) 3) of
                  (Some y, Some mo, Some d) \<Rightarrow>
                    (case datetime y mo d of
                       None \<Rightarrow> Inl ValueError
                     | Some dt \<Rightarrow> Inr dt)
                | _ \<Rightarrow> Inl ValueError))"

text \<open>"matches"\<close>
definition msg_date_same :: pystr where
  "msg_date_same = [0x645, 0x637, 0x627, 0x628, 0x642]"

text \<open>
  "matches (difference of " \<dots> " day)" and "does not match (difference of " \<dots> " day)":
  f-strings, which raise when the number cannot be formatted.
\<close>

definition msg_date_close :: "int \<Rightarrow> exn + pystr" where
  "msg_date_close diff =
     (case py_str diff of
        None \<Rightarrow> Inl ValueError
      | Some ds \<Rightarrow>
          Inr ([0x645, 0x637, 0x627, 0x628, 0x642, 0x20, 0x28, 0x641, 0x631, 0x642, 0x20]
               @ ds @ [0x20, 0x64A, 0x648, 0x645, 0x29]))"

definition msg_date_far :: "int \<Rightarrow> exn + pystr" where
  "msg_date_far diff =
     (case py_str diff of
        None \<Rightarrow> Inl ValueError
      | Some ds \<Rightarrow>
          Inr ([0x63A, 0x64A, 0x631, 0x20, 0x645, 0x637, 0x627, 0x628, 0x642, 0x20,
                0x28, 0x641, 0x631, 0x642, 0x20]
               @ ds @ [0x20, 0x64A, 0x648, 0x645, 0x29]))"

text \<open>
  The body of the \<^verbatim>\<open>try\<close> of \<^verbatim>\<open>compare_dates\<close>. The message of a match is a conditional
  expression: the f-string is evaluated for a positive difference only.
\<close>

definition compare_dates_try :: "date \<Rightarrow> pystr \<Rightarrow> int \<Rightarrow> exn + bool \<times> pystr" where
  "compare_dates_try extracted user_date max_diff_days =
     (case strptime_ymd user_date of
        Inl e \<Rightarrow> Inl e
      | Inr user_dt \<Rightarrow>
          (let diff = \<bar>toordinal extracted - toordinal user_dt\<bar> in
           if diff \<le> max_diff_days
           then (if 0 < diff
                 then (case msg_date_close diff of
                         Inl e \<Rightarrow> Inl e
                       | Inr msg \<Rightarrow> Inr (True, msg))
                 else Inr (True, msg_date_same))
           else (case msg_date_far diff of
                   Inl e \<Rightarrow> Inl e
                 | Inr msg \<Rightarrow> Inr (False, msg))))"

definition compare_dates :: "date \<Rightarrow> pystr \<Rightarrow> int \<Rightarrow> bool \<times> pystr" where
  "compare_dates extracted user_date max_diff_days =
     (case compare_dates_try extracted user_date max_diff_days of
        Inl _ \<Rightarrow> (False, msg_cannot_compare)
      | Inr r \<Rightarrow> r)"

section \<open>The field extractors\<close>

text \<open>\<^verbatim>\<open>s.strip()\<close>, and the substring test \<^verbatim>\<open>p in s\<close>.\<close>

definition py_strip :: "pystr \<Rightarrow> pystr" where
  "py_strip s = rev (dropWhile unicode_space (rev (dropWhile unicode_space s)))"

fun contains :: "pystr \<Rightarrow> pystr \<Rightarrow> bool" where
  "contains p [] = (p = [])"
| "contains p (c # cs) = (take (length p) (c # cs) = p \<or> contains p cs)"

text \<open>The labels "time of the accident", "date of issue" and "place of the accident".\<close>

definition label_accident_time :: pystr where
  "label_accident_time = [0x648, 0x642, 0x62A, 0x20, 0x627, 0x644, 0x62D, 0x627, 0x62F, 0x62B]"

definition label_issue_date :: pystr where
  "label_issue_date =
     [0x62A, 0x627, 0x631, 0x64A, 0x62E, 0x20, 0x627, 0x644, 0x625, 0x635, 0x62F,
       0x627, 0x631]"

definition label_accident_place :: pystr where
  "label_accident_place =
     [0x645, 0x643, 0x627, 0x646, 0x20, 0x627, 0x644, 0x62D, 0x627, 0x62F, 0x62B]"

definition d12 :: re where
  "d12 = Rep Digit 1 (Some 2) True"

definition d2 :: re where
  "d2 = Rep Digit 2 (Some 2) True"

definition year20 :: re where
  "year20 = seqs [lit (asc ''20''), d2]"

definition slash_or_dash :: re where
  "slash_or_dash = C (OneOf [0x2F, 0x2D])"

subsection \<open>Dates\<close>

text \<open>
  \<^verbatim>\<open>(?:<accident time>|Accident Time|<issue date>|Version Date)[^\d]*(\d{1,2})[/-](\d{1,2})[/-](20\d{2})\<close>
\<close>

definition date_label_pattern :: re where
  "date_label_pattern =
     seqs [alts (lit label_accident_time)
                [lit (asc ''Accident Time''), lit label_issue_date, lit (asc ''Version Date'')],
           Rep (NotC Digit) 0 None True,
           Grp 1 d12, slash_or_dash, Grp 2 d12, slash_or_dash, Grp 3 year20]"

text \<open>
  \<^verbatim>\<open>(\d{2})/(\d{2})/(20\d{2})\<close>, \<^verbatim>\<open>(\d{1,2})[/-](\d{1,2})[/-](20\d{2})\<close> and
  \<^verbatim>\<open>(20\d{2})[/-](\d{1,2})[/-](\d{1,2})\<close>
\<close>

definition date_patterns :: "re list" where
  "date_patterns =
     [seqs [Grp 1 d2, C (Chr 0x2F), Grp 2 d2, C (Chr 0x2F), Grp 3 year20],
      seqs [Grp 1 d12, slash_or_dash, Grp 2 d12, slash_or_dash, Grp 3 year20],
      seqs [Grp 1 year20, slash_or_dash, Grp 2 d12, slash_or_dash, Grp 3 d12]]"

text \<open>
  Day, month and year from the groups of the labelled pattern. The groups are one to four
  digits, so \<^verbatim>\<open>int\<close> cannot fail on them (\<open>date_groups_converted\<close> below); an impossible date
  makes \<^verbatim>\<open>datetime\<close> raise, which the code passes over (\<open>None\<close>).
\<close>

definition dmy_of_groups :: "caps \<Rightarrow> date option" where
  "dmy_of_groups g =
     (case (grp_int g 1, grp_int g 2, grp_int g 3) of
        (Some d, Some m, Some y) \<Rightarrow> datetime y m d
      | _ \<Rightarrow> None)"

text \<open>In the loop a first group of four characters means year, month, day.\<close>

definition date_of_groups :: "caps \<Rightarrow> date option" where
  "date_of_groups g =
     (case grp g 1 of
        None \<Rightarrow> None
      | Some g0 \<Rightarrow>
          (case (grp_int g 1, grp_int g 2, grp_int g 3) of
             (Some a, Some b, Some c) \<Rightarrow>
               if length g0 = 4 then datetime a b c else datetime c b a
           | _ \<Rightarrow> None))"

fun date_loop :: "re list \<Rightarrow> pystr \<Rightarrow> date option" where
  "date_loop [] text = None"
| "date_loop (pattern # patterns) text =
     (case re_search False pattern text of
        None \<Rightarrow> date_loop patterns text
      | Some g \<Rightarrow>
          (case date_of_groups g of
             None \<Rightarrow> date_loop patterns text
           | Some dt \<Rightarrow> Some dt))"

definition extract_date_from_text :: "pystr \<Rightarrow> date option" where
  "extract_date_from_text text =
     (case (case re_search True date_label_pattern text of
              None \<Rightarrow> None
            | Some g \<Rightarrow> dmy_of_groups g) of
        Some dt \<Rightarrow> Some dt
      | None \<Rightarrow> date_loop date_patterns text)"

subsection \<open>Times\<close>

text \<open>The markers for the morning (two spellings) and for the evening (two spellings).\<close>

definition am_short :: pystr where
  "am_short = [0x635]"

definition am_long :: pystr where
  "am_long = [0x635, 0x628, 0x627, 0x62D]"

definition pm_short :: pystr where
  "pm_short = [0x645]"

definition pm_long :: pystr where
  "pm_long = [0x645, 0x633, 0x627, 0x621]"

text \<open>"the hour"\<close>
definition label_hour :: pystr where
  "label_hour = [0x627, 0x644, 0x633, 0x627, 0x639, 0x629]"

text \<open>
  \<^verbatim>\<open>(?:<accident time>|Accident Time)[^\d]*\d{1,2}/\d{1,2}/\d{4}\s+(\d{1,2}):(\d{2}):?(\d{2})?\<close>
\<close>

definition time_label_pattern :: re where
  "time_label_pattern =
     seqs [alts (lit label_accident_time) [lit (asc ''Accident Time'')],
           Rep (NotC Digit) 0 None True,
           d12, C (Chr 0x2F), d12, C (Chr 0x2F), Rep Digit 4 (Some 4) True,
           Rep Space 1 None True,
           Grp 1 d12, C (Chr 0x3A), Grp 2 d2, Rep (Chr 0x3A) 0 (Some 1) True, Opt (Grp 3 d2)]"

text \<open>
  \<^verbatim>\<open>(\d{1,2}):(\d{2}):(\d{2})\<close>,
  \<^verbatim>\<open>(\d{1,2}):(\d{2})\s*(<am>|<pm>|AM|PM|<morning>|<evening>)?\<close> and
  \<^verbatim>\<open><the hour>\s*(\d{1,2}):?(\d{2})?\s*(<am>|<pm>|<morning>|<evening>)?\<close>
\<close>

definition time_patterns :: "re list" where
  "time_patterns =
     [seqs [Grp 1 d12, C (Chr 0x3A), Grp 2 d2, C (Chr 0x3A), Grp 3 d2],
      seqs [Grp 1 d12, C (Chr 0x3A), Grp 2 d2, Rep Space 0 None True,
            Opt (Grp 3 (alts (lit am_short)
                             [lit pm_short, lit (asc ''AM''), lit (asc ''PM''),
                              lit am_long, lit pm_long]))],
      seqs [lit label_hour, Rep Space 0 None True,
            Grp 1 d12, Rep (Chr 0x3A) 0 (Some 1) True, Opt (Grp 2 d2), Rep Space 0 None True,
            Opt (Grp 3 (alts (lit am_short) [lit pm_short, lit am_long, lit pm_long]))]]"

definition hhmm :: "int \<Rightarrow> int \<Rightarrow> pystr" where
  "hhmm hour minute = fmt_02d hour @ [0x3A] @ fmt_02d minute"

text \<open>
  The body of the loop of \<^verbatim>\<open>extract_time_from_text\<close> once a pattern has matched. The groups
  are one or two digits, so \<^verbatim>\<open>int\<close> cannot fail on them and the \<open>None\<close> branches are never
  taken (\<open>time_groups_converted\<close> below).
\<close>

definition time_of_groups :: "caps \<Rightarrow> pystr option" where
  "time_of_groups g =
     (case grp_int g 1 of
        None \<Rightarrow> None
      | Some hour \<Rightarrow>
          (case (case grp g 2 of
                   None \<Rightarrow> Some 0
                 | Some s \<Rightarrow> if s = [] then Some 0 else py_int s) of
             None \<Rightarrow> None
           | Some minute \<Rightarrow>
               (let period = (case grp g 3 of
                                None \<Rightarrow> None
                              | Some s \<Rightarrow> if s = [] then None else Some s);
                    hour' =
                      (if period \<in> set [Some pm_short, Some (asc ''PM''), Some pm_long] \<and> hour \<noteq> 12
                       then hour + 12
                       else if period \<in> set [Some am_short, Some (asc ''AM''), Some am_long]
                               \<and> hour = 12
                       then 0
                       else hour)
                in Some (hhmm hour' minute))))"

fun time_loop :: "re list \<Rightarrow> pystr \<Rightarrow> pystr option" where
  "time_loop [] text = None"
| "time_loop (pattern # patterns) text =
     (case re_search True pattern text of
        None \<Rightarrow> time_loop patterns text
      | Some g \<Rightarrow> time_of_groups g)"

definition extract_time_from_text :: "pystr \<Rightarrow> pystr option" where
  "extract_time_from_text text =
     (case re_search True time_label_pattern text of
        Some g \<Rightarrow>
          (case (grp_int g 1, grp_int g 2) of
             (Some hour, Some minute) \<Rightarrow> Some (hhmm hour minute)
           | _ \<Rightarrow> None)
      | None \<Rightarrow> time_loop time_patterns text)"

subsection \<open>Locations\<close>

text \<open>
  The characters between the brackets of the labelled pattern: the letters of the ten
  city names, written one name after the other.
\<close>

definition city_letters :: "nat list" where
  "city_letters =
     [0x627, 0x644, 0x631, 0x64A, 0x627, 0x636, 0x62C, 0x62F, 0x629, 0x645, 0x643,
       0x629, 0x627, 0x644, 0x645, 0x62F, 0x64A, 0x646, 0x629, 0x627, 0x644, 0x62F,
       0x645, 0x627, 0x645, 0x627, 0x644, 0x62E, 0x628, 0x631, 0x627, 0x644, 0x637,
       0x627, 0x626, 0x641, 0x62A, 0x628, 0x648, 0x643, 0x623, 0x628, 0x647, 0x627,
       0x627, 0x644, 0x642, 0x635, 0x64A, 0x645]"

text \<open>\<^verbatim>\<open>(?:<accident place>|Accident Location)[^\n]*?([<city letters>]+)\<close>\<close>

definition location_pattern :: re where
  "location_pattern =
     seqs [alts (lit label_accident_place) [lit (asc ''Accident Location'')],
           Rep (NotC (Chr 0x0A)) 0 None False,
           Grp 1 (Rep (OneOf city_letters) 1 None True)]"

text \<open>
  The gazetteer: Riyadh, Jeddah, Makkah, Madinah, Dammam, Khobar, Taif, Tabuk, Abha, Qassim.
\<close>

definition areas :: "pystr list" where
  "areas =
     [[0x627, 0x644, 0x631, 0x64A, 0x627, 0x636],
      [0x62C, 0x62F, 0x629],
      [0x645, 0x643, 0x629],
      [0x627, 0x644, 0x645, 0x62F, 0x64A, 0x646, 0x629],
      [0x627, 0x644, 0x62F, 0x645, 0x627, 0x645],
      [0x627, 0x644, 0x62E, 0x628, 0x631],
      [0x627, 0x644, 0x637, 0x627, 0x626, 0x641],
      [0x62A, 0x628, 0x648, 0x643],
      [0x623, 0x628, 0x647, 0x627],
      [0x627, 0x644, 0x642, 0x635, 0x64A, 0x645]]"

text \<open>\<^verbatim>\<open>(\d{1,2}\.\d+)\s*,\s*(\d{1,2}\.\d+)\<close>\<close>

definition decimal_number :: re where
  "decimal_number = seqs [d12, C (Chr 0x2E), Rep Digit 1 None True]"

definition coord_pattern :: re where
  "coord_pattern =
     seqs [Grp 1 decimal_number, Rep Space 0 None True, C (Chr 0x2C), Rep Space 0 None True,
           Grp 2 decimal_number]"

text \<open>\<^verbatim>\<open>([A-Z]{4}\d{4})\<close>, searched ignoring case.\<close>

definition address_pattern :: re where
  "address_pattern =
     Grp 1 (seqs [Rep (Rng 0x41 0x5A) 4 (Some 4) True, Rep Digit 4 (Some 4) True])"

text \<open>
  \<^verbatim>\<open>str.upper\<close> on the characters the address pattern can match: ASCII letters, the
  characters U+0130, U+0131, U+017F and U+212A, and decimal digits.
\<close>

definition upper_cp :: "nat \<Rightarrow> nat" where
  "upper_cp c =
     (if 0x61 \<le> c \<and> c \<le> 0x7A then c - 32
      else if c = 0x131 then 0x49
      else if c = 0x17F then 0x53
      else c)"

definition extract_location_from_text :: "pystr \<Rightarrow> pystr \<times> pystr" where
  "extract_location_from_text text =
     (let city = (case re_search False location_pattern text of
                    None \<Rightarrow> []
                  | Some g \<Rightarrow> (case grp g 1 of None \<Rightarrow> [] | Some c \<Rightarrow> py_strip c));
          city = (if city = []
                  then (case find (\<lambda>area. contains area text) areas of
                          None \<Rightarrow> city
                        | Some area \<Rightarrow> area)
                  else city);
          coordinates = (case re_search False coord_pattern text of
                           None \<Rightarrow> []
                         | Some g \<Rightarrow>
                             (case (grp g 1, grp g 2) of
                                (Some a, Some b) \<Rightarrow> a @ asc '', '' @ b
                              | _ \<Rightarrow> []))
      in case re_search True address_pattern text of
           None \<Rightarrow> (city, coordinates)
         | Some g \<Rightarrow>
             (case grp g 1 of
                None \<Rightarrow> (city, coordinates)
              | Some a \<Rightarrow> (map upper_cp a, coordinates)))"

section \<open>The world outside the verifier\<close>

text \<open>
  The verifier reads a document through PyMuPDF, calls the LocationIQ service over the
  network, draws random numbers and computes with floating point numbers. All of this is
  a parameter of the model: a \<open>world\<close> gives the outcome of every such step. Floating point
  values are an abstract type \<open>'f\<close> with the operations the code applies to them;
  \<^verbatim>\<open>math.sin\<close>, \<^verbatim>\<open>math.cos\<close> and \<^verbatim>\<open>math.sqrt\<close> raise \<^verbatim>\<open>ValueError\<close> outside their domain
  (\<open>None\<close>). The effects that may differ from one call to the next (network, random
  numbers) take the number of effects performed so far as their first argument.
\<close>

record 'f world =
  f_lit :: "int \<Rightarrow> nat \<Rightarrow> 'f"  \<comment> \<open>the literal \<open>m / 10 ^ k\<close>\<close>
  f_of_int :: "int \<Rightarrow> 'f"
  f_add :: "'f \<Rightarrow> 'f \<Rightarrow> 'f"
  f_sub :: "'f \<Rightarrow> 'f \<Rightarrow> 'f"
  f_mul :: "'f \<Rightarrow> 'f \<Rightarrow> 'f"
  f_div :: "'f \<Rightarrow> 'f \<Rightarrow> 'f"
  f_square :: "'f \<Rightarrow> 'f"  \<comment> \<open>\<^verbatim>\<open>x ** 2\<close>\<close>
  f_sin :: "'f \<Rightarrow> 'f option"
  f_cos :: "'f \<Rightarrow> 'f option"
  f_sqrt :: "'f \<Rightarrow> 'f option"
  f_radians :: "'f \<Rightarrow> 'f"
  f_atan2 :: "'f \<Rightarrow> 'f \<Rightarrow> 'f"
  f_eq0 :: "'f \<Rightarrow> bool"  \<comment> \<open>\<^verbatim>\<open>x == 0\<close>\<close>
  f_le :: "'f \<Rightarrow> 'f \<Rightarrow> bool"
  f_parse :: "pystr \<Rightarrow> 'f option"  \<comment> \<open>\<^verbatim>\<open>float(s)\<close>, \<open>None\<close> for \<^verbatim>\<open>ValueError\<close>\<close>
  f_format :: "nat \<Rightarrow> 'f \<Rightarrow> pystr"  \<comment> \<open>\<^verbatim>\<open>f"{x:.nf}"\<close>\<close>
  unicode_upper :: "pystr \<Rightarrow> pystr"  \<comment> \<open>\<^verbatim>\<open>str.upper\<close> on any string\<close>
  has_pymupdf :: bool
  fitz_pages :: "pystr \<Rightarrow> pystr list option"  \<comment> \<open>the text of the pages, \<open>None\<close> when PyMuPDF raises\<close>
  locationiq_search :: "nat \<Rightarrow> pystr \<Rightarrow> ('f \<times> 'f \<times> pystr) option"
  locationiq_reverse :: "nat \<Rightarrow> 'f \<Rightarrow> 'f \<Rightarrow> pystr"
  random_uniform :: "nat \<Rightarrow> 'f \<Rightarrow> 'f \<Rightarrow> 'f"

text \<open>
  A latitude or longitude is a Python number: \<^verbatim>\<open>geocode_address\<close> returns the integers
  \<^verbatim>\<open>(0, 0)\<close> when it fails and floats otherwise.
\<close>

datatype 'f pynum = PyInt int | PyFloat 'f

fun nonzero :: "'f world \<Rightarrow> 'f pynum \<Rightarrow> bool" where
  "nonzero W (PyInt i) = (i \<noteq> 0)"
| "nonzero W (PyFloat x) = (\<not> f_eq0 W x)"

fun num_f :: "'f world \<Rightarrow> 'f pynum \<Rightarrow> 'f" where
  "num_f W (PyInt i) = f_of_int W i"
| "num_f W (PyFloat x) = x"

definition MAX_DISTANCE_KM :: "'f world \<Rightarrow> 'f" where
  "MAX_DISTANCE_KM W = f_lit W 50 1"

definition extract_text_from_pdf :: "'f world \<Rightarrow> pystr \<Rightarrow> pystr" where
  "extract_text_from_pdf W pdf_path =
     (if \<not> has_pymupdf W then []
      else (case fitz_pages W pdf_path of
              None \<Rightarrow> []
            | Some pages \<Rightarrow> foldl (\<lambda>text page. text @ page) [] pages))"

definition calculate_distance_km :: "'f world \<Rightarrow> 'f \<Rightarrow> 'f \<Rightarrow> 'f \<Rightarrow> 'f \<Rightarrow> exn + 'f" where
  "calculate_distance_km W lat1 lng1 lat2 lng2 =
     (let R = f_of_int W 6371;
          lat1_rad = f_radians W lat1;
          lat2_rad = f_radians W lat2;
          delta_lat = f_radians W (f_sub W lat2 lat1);
          delta_lng = f_radians W (f_sub W lng2 lng1)
      in case (f_sin W (f_div W delta_lat (f_of_int W 2)), f_cos W lat1_rad,
               f_cos W lat2_rad, f_sin W (f_div W delta_lng (f_of_int W 2))) of
           (Some s1, Some c1, Some c2, Some s2) \<Rightarrow>
             (let a = f_add W (f_square W s1) (f_mul W (f_mul W c1 c2) (f_square W s2))
              in case (f_sqrt W a, f_sqrt W (f_sub W (f_of_int W 1) a)) of
                   (Some q1, Some q2) \<Rightarrow>
                     Inr (f_mul W R (f_mul W (f_of_int W 2) (f_atan2 W q1 q2)))
                 | _ \<Rightarrow> Inl ValueError)
         | _ \<Rightarrow> Inl ValueError)"

text \<open>
  \<^verbatim>\<open>geocode_address\<close>: the query sent is the address followed by ", Saudi Arabia, " and the
  country's Arabic name; every failure gives \<^verbatim>\<open>(0, 0, "")\<close>. The second component of the
  result is the number of effects performed afterwards.
\<close>

definition geocode_address ::
  "'f world \<Rightarrow> nat \<Rightarrow> pystr \<Rightarrow> ('f pynum \<times> 'f pynum \<times> pystr) \<times> nat" where
  "geocode_address W k address =
     (case locationiq_search W k
             (address @
              [0x2C, 0x20, 0x53, 0x61, 0x75, 0x64, 0x69, 0x20, 0x41, 0x72, 0x61, 0x62,
               0x69, 0x61, 0x2C, 0x20, 0x627, 0x644, 0x633, 0x639, 0x648, 0x62F, 0x64A,
               0x629]) of
        Some (lat, lng, display_name) \<Rightarrow> ((PyFloat lat, PyFloat lng, display_name), Suc k)
      | None \<Rightarrow> ((PyInt 0, PyInt 0, []), Suc k))"

definition reverse_geocode :: "'f world \<Rightarrow> nat \<Rightarrow> 'f \<Rightarrow> 'f \<Rightarrow> pystr \<times> nat" where
  "reverse_geocode W k lat lng = (locationiq_reverse W k lat lng, Suc k)"

section \<open>The location comparator\<close>

text \<open>
  The coordinates of the report: both start as \<^verbatim>\<open>0.0\<close>; the latitude is assigned before
  the longitude is parsed, so it keeps its value when the longitude fails.
\<close>

definition parse_coords :: "'f world \<Rightarrow> pystr \<Rightarrow> 'f \<times> 'f" where
  "parse_coords W extracted_coords =
     (let zero = f_lit W 0 1 in
      case split_on 0x2C (filter (\<lambda>c. c \<noteq> 0x20) extracted_coords) of
        [] \<Rightarrow> (zero, zero)
      | p0 # rest \<Rightarrow>
          (case f_parse W p0 of
             None \<Rightarrow> (zero, zero)
           | Some lat \<Rightarrow>
               (case rest of
                  [] \<Rightarrow> (lat, zero)
                | p1 # _ \<Rightarrow>
                    (case f_parse W p1 of
                       None \<Rightarrow> (lat, zero)
                     | Some lng \<Rightarrow> (lat, lng)))))"

text \<open>"no location was found in the report"\<close>
definition msg_no_location :: pystr where
  "msg_no_location =
     [0x644, 0x645, 0x20, 0x64A, 0x64F, 0x639, 0x62B, 0x631, 0x20, 0x639, 0x644,
       0x649, 0x20, 0x645, 0x648, 0x642, 0x639, 0x20, 0x641, 0x64A, 0x20, 0x627, 0x644,
       0x62A, 0x642, 0x631, 0x64A, 0x631]"

text \<open>"matches - the distance is \<dots> km (\<dots>)", the place defaulting to "a nearby place"\<close>
definition msg_near :: "pystr \<Rightarrow> pystr \<Rightarrow> pystr" where
  "msg_near km place =
     [0x645, 0x637, 0x627, 0x628, 0x642, 0x20, 0x2D, 0x20, 0x627, 0x644, 0x645, 0x633,
       0x627, 0x641, 0x629, 0x20]
     @ km @ [0x20, 0x643, 0x645, 0x20, 0x28]
     @ (if place \<noteq> [] then place
        else [0x645, 0x648, 0x642, 0x639, 0x20, 0x642, 0x631, 0x64A, 0x628])
     @ asc '')''"

text \<open>"does not match - the distance is \<dots> km (the limit is 5.0 km)"\<close>
definition msg_far :: "pystr \<Rightarrow> pystr" where
  "msg_far km =
     [0x63A, 0x64A, 0x631, 0x20, 0x645, 0x637, 0x627, 0x628, 0x642, 0x20, 0x2D, 0x20,
       0x627, 0x644, 0x645, 0x633, 0x627, 0x641, 0x629, 0x20]
     @ km
     @ [0x20, 0x643, 0x645, 0x20, 0x28, 0x627, 0x644, 0x62D, 0x62F, 0x20, 0x627, 0x644,
       0x623, 0x642, 0x635, 0x649, 0x20]
     @ asc ''5.0'' @ [0x20, 0x643, 0x645, 0x29]"

text \<open>"coordinates of the report: \<dots> (\<dots>, \<dots>)" and "coordinates: \<dots>, \<dots>"\<close>
definition msg_report_coords :: "pystr \<Rightarrow> pystr \<Rightarrow> pystr \<Rightarrow> pystr" where
  "msg_report_coords place lat lng =
     [0x625, 0x62D, 0x62F, 0x627, 0x62B, 0x64A, 0x627, 0x62A, 0x20, 0x627, 0x644,
       0x62A, 0x642, 0x631, 0x64A, 0x631, 0x3A, 0x20]
     @ place @ asc '' ('' @ lat @ asc '', '' @ lng @ asc '')''"

definition msg_coords :: "pystr \<Rightarrow> pystr \<Rightarrow> pystr" where
  "msg_coords lat lng =
     [0x625, 0x62D, 0x62F, 0x627, 0x62B, 0x64A, 0x627, 0x62A, 0x3A, 0x20]
     @ lat @ asc '', '' @ lng"

text \<open>"same area - \<dots> (\<dots> km)"\<close>
definition msg_same_area :: "pystr \<Rightarrow> pystr \<Rightarrow> pystr" where
  "msg_same_area city km =
     [0x646, 0x641, 0x633, 0x20, 0x627, 0x644, 0x645, 0x646, 0x637, 0x642, 0x629,
       0x20, 0x2D, 0x20]
     @ city @ asc '' ('' @ km @ [0x20, 0x643, 0x645, 0x29]"

text \<open>"different areas - the report: \<dots>, the distance: \<dots> km"\<close>
definition msg_other_area :: "pystr \<Rightarrow> pystr \<Rightarrow> pystr" where
  "msg_other_area city km =
     [0x645, 0x646, 0x627, 0x637, 0x642, 0x20, 0x645, 0x62E, 0x62A, 0x644, 0x641,
       0x629, 0x20, 0x2D, 0x20, 0x627, 0x644, 0x62A, 0x642, 0x631, 0x64A, 0x631, 0x3A,
       0x20]
     @ city
     @ [0x2C, 0x20, 0x627, 0x644, 0x645, 0x633, 0x627, 0x641, 0x629, 0x3A, 0x20]
     @ km @ [0x20, 0x643, 0x645]"

text \<open>"the city: \<dots>" and "the location could not be verified"\<close>
definition msg_city :: "pystr \<Rightarrow> pystr" where
  "msg_city city =
     [0x627, 0x644, 0x645, 0x62F, 0x64A, 0x646, 0x629, 0x3A, 0x20]
     @ city"

definition msg_unverified :: pystr where
  "msg_unverified =
     [0x62A, 0x639, 0x630, 0x631, 0x20, 0x627, 0x644, 0x62A, 0x62D, 0x642, 0x642,
       0x20, 0x645, 0x646, 0x20, 0x627, 0x644, 0x645, 0x648, 0x642, 0x639]"

text \<open>
  \<^verbatim>\<open>compare_locations\<close>, tier by tier. Every result carries the number of effects
  performed; an exception of the distance computation is not caught by the code and is
  the result \<open>Inl\<close>.

  First tier: the report's coordinates and the user's point are both known.
\<close>

definition compare_both_points ::
  "'f world \<Rightarrow> nat \<Rightarrow> pystr \<Rightarrow> 'f \<Rightarrow> 'f \<Rightarrow> 'f pynum \<Rightarrow> 'f pynum
     \<Rightarrow> exn + (bool \<times> pystr) \<times> nat" where
  "compare_both_points W k extracted_city report_lat report_lng user_lat user_lng =
     (case calculate_distance_km W report_lat report_lng
             (num_f W user_lat) (num_f W user_lng) of
        Inl e \<Rightarrow> Inl e
      | Inr distance \<Rightarrow>
          (let (report_location, k') = reverse_geocode W k report_lat report_lng;
               report_location =
                 (if report_location = [] \<and> extracted_city \<noteq> [] then extracted_city
                  else report_location)
           in if f_le W distance (MAX_DISTANCE_KM W)
              then Inr ((True, msg_near (f_format W 1 distance) report_location), k')
              else Inr ((False, msg_far (f_format W 1 distance)), k')))"

text \<open>Second tier: only the report's coordinates are known.\<close>

definition compare_report_point ::
  "'f world \<Rightarrow> nat \<Rightarrow> 'f \<Rightarrow> 'f \<Rightarrow> (bool \<times> pystr) \<times> nat" where
  "compare_report_point W k report_lat report_lng =
     (let (report_location, k') = reverse_geocode W k report_lat report_lng
      in if report_location \<noteq> []
         then ((True, msg_report_coords report_location
                        (f_format W 4 report_lat) (f_format W 4 report_lng)), k')
         else ((True, msg_coords (f_format W 4 report_lat) (f_format W 4 report_lng)), k'))"

text \<open>
  Third tier: the city of the report is geocoded and compared with the user's point at
  twice the distance; \<open>None\<close> when the city has no point, and the code falls through.
\<close>

definition compare_city_point ::
  "'f world \<Rightarrow> nat \<Rightarrow> pystr \<Rightarrow> 'f pynum \<Rightarrow> 'f pynum
     \<Rightarrow> exn + (bool \<times> pystr) option \<times> nat" where
  "compare_city_point W k extracted_city user_lat user_lng =
     (let ((city_lat, city_lng, city_name), k') = geocode_address W k extracted_city
      in if nonzero W city_lat
         then
           (case calculate_distance_km W (num_f W city_lat) (num_f W city_lng)
                   (num_f W user_lat) (num_f W user_lng) of
              Inl e \<Rightarrow> Inl e
            | Inr distance \<Rightarrow>
                if f_le W distance (f_mul W (MAX_DISTANCE_KM W) (f_of_int W 2))
                then Inr (Some (True, msg_same_area extracted_city (f_format W 1 distance)), k')
                else Inr (Some (False, msg_other_area extracted_city (f_format W 1 distance)),
                          k'))
         else Inr (None, k'))"

text \<open>
  The user's point: the address is geocoded, and once more by its first four characters
  in upper case when the first answer is \<^verbatim>\<open>(0, 0)\<close>.
\<close>

definition geocode_user ::
  "'f world \<Rightarrow> nat \<Rightarrow> pystr \<Rightarrow> ('f pynum \<times> 'f pynum \<times> pystr) \<times> nat" where
  "geocode_user W k user_address =
     (let ((user_lat, user_lng, user_location), k') = geocode_address W k user_address
      in if \<not> nonzero W user_lat \<and> \<not> nonzero W user_lng
         then geocode_address W k'
                (if 4 \<le> length user_address then unicode_upper W (take 4 user_address)
                 else user_address)
         else ((user_lat, user_lng, user_location), k'))"

definition compare_locations ::
  "'f world \<Rightarrow> nat \<Rightarrow> pystr \<Rightarrow> pystr \<Rightarrow> pystr \<Rightarrow> exn + (bool \<times> pystr) \<times> nat" where
  "compare_locations W k0 extracted_city extracted_coords user_address =
     (if extracted_city = [] \<and> extracted_coords = [] then Inr ((False, msg_no_location), k0)
      else
        let (report_lat, report_lng) =
              (if extracted_coords \<noteq> [] then parse_coords W extracted_coords
               else (f_lit W 0 1, f_lit W 0 1));
            ((user_lat, user_lng, user_location), k) = geocode_user W k0 user_address
        in
          if \<not> f_eq0 W report_lat \<and> \<not> f_eq0 W report_lng
             \<and> nonzero W user_lat \<and> nonzero W user_lng
          then compare_both_points W k extracted_city report_lat report_lng user_lat user_lng
          else if \<not> f_eq0 W report_lat \<and> \<not> f_eq0 W report_lng
          then Inr (compare_report_point W k report_lat report_lng)
          else
            (case (if extracted_city \<noteq> [] \<and> nonzero W user_lat
                   then compare_city_point W k extracted_city user_lat user_lng
                   else Inr (None, k)) of
               Inl e \<Rightarrow> Inl e
             | Inr (Some r, k') \<Rightarrow> Inr (r, k')
             | Inr (None, k') \<Rightarrow>
                 if extracted_city \<noteq> [] then Inr ((True, msg_city extracted_city), k')
                 else Inr ((False, msg_unverified), k')))"

section \<open>The verification result and the aggregation\<close>

record verification_result =
  is_valid_source :: bool
  source_name :: pystr
  extracted_date :: "date option"
  extracted_time :: "pystr option"
  extracted_location :: pystr
  date_match :: bool
  time_match :: bool
  location_match :: bool
  confidence :: int
  message :: pystr
  matches :: "string \<rightharpoonup> pystr"
  raw_text :: pystr

definition VerificationResult :: verification_result where
  "VerificationResult =
     \<lparr>is_valid_source = False, source_name = [], extracted_date = None,
      extracted_time = None, extracted_location = [], date_match = False,
      time_match = False, location_match = False, confidence = 0, message = [],
      matches = Map.empty, raw_text = []\<rparr>"

text \<open>The tick and the cross that end a line of the breakdown.\<close>

definition msg_source_ok :: "pystr \<Rightarrow> pystr" where
  "msg_source_ok name =
     [0x62A, 0x642, 0x631, 0x64A, 0x631, 0x20] @ name
     @ [0x20, 0x2D, 0x20, 0x62A, 0x645, 0x20, 0x627, 0x644, 0x62A, 0x62D, 0x642, 0x642,
       0x20, 0x2713]"

definition msg_source_unknown :: pystr where
  "msg_source_unknown =
     [0x645, 0x635, 0x62F, 0x631, 0x20, 0x627, 0x644, 0x62A, 0x642, 0x631, 0x64A,
       0x631, 0x20, 0x63A, 0x64A, 0x631, 0x20, 0x645, 0x639, 0x631, 0x648, 0x641, 0x20,
       0x2717]"

definition prefix_date :: pystr where
  "prefix_date = [0x627, 0x644, 0x62A, 0x627, 0x631, 0x64A, 0x62E, 0x3A, 0x20]"

definition prefix_time :: pystr where
  "prefix_time = [0x627, 0x644, 0x648, 0x642, 0x62A, 0x3A, 0x20]"

definition prefix_location :: pystr where
  "prefix_location = [0x627, 0x644, 0x645, 0x648, 0x642, 0x639, 0x3A, 0x20]"

definition msg_no_date :: pystr where
  "msg_no_date =
     [0x644, 0x645, 0x20, 0x64A, 0x64F, 0x639, 0x62B, 0x631, 0x20, 0x639, 0x644,
       0x649, 0x20, 0x62A, 0x627, 0x631, 0x64A, 0x62E, 0x20, 0x641, 0x64A, 0x20, 0x627,
       0x644, 0x62A, 0x642, 0x631, 0x64A, 0x631]"

definition msg_no_time :: pystr where
  "msg_no_time =
     [0x644, 0x645, 0x20, 0x64A, 0x64F, 0x639, 0x62B, 0x631, 0x20, 0x639, 0x644,
       0x649, 0x20, 0x648, 0x642, 0x62A, 0x20, 0x641, 0x64A, 0x20, 0x627, 0x644, 0x62A,
       0x642, 0x631, 0x64A, 0x631]"

definition msg_no_location_found :: pystr where
  "msg_no_location_found =
     [0x644, 0x645, 0x20, 0x64A, 0x64F, 0x639, 0x62B, 0x631, 0x20, 0x639, 0x644,
       0x649, 0x20, 0x645, 0x648, 0x642, 0x639, 0x20, 0x641, 0x64A, 0x20, 0x627, 0x644,
       0x62A, 0x642, 0x631, 0x64A, 0x631]"

definition suffix_matches :: pystr where
  "suffix_matches = [0x20, 0x2D, 0x20, 0x645, 0x637, 0x627, 0x628, 0x642, 0x20, 0x2713]"

text \<open>The verdicts of the normal path.\<close>

definition msg_verified :: pystr where
  "msg_verified =
     [0x62A, 0x645, 0x20, 0x627, 0x644, 0x62A, 0x62D, 0x642, 0x642, 0x20, 0x645,
       0x646, 0x20, 0x627, 0x644, 0x62A, 0x642, 0x631, 0x64A, 0x631, 0x20, 0x628,
       0x646, 0x62C, 0x627, 0x62D, 0x20, 0x2D, 0x20, 0x627, 0x644, 0x628, 0x64A, 0x627,
       0x646, 0x627, 0x62A, 0x20, 0x645, 0x62A, 0x637, 0x627, 0x628, 0x642, 0x629]"

definition msg_partial :: pystr where
  "msg_partial =
     [0x62A, 0x62D, 0x642, 0x642, 0x20, 0x62C, 0x632, 0x626, 0x64A, 0x20, 0x2D, 0x20,
       0x628, 0x639, 0x636, 0x20, 0x627, 0x644, 0x628, 0x64A, 0x627, 0x646, 0x627,
       0x62A, 0x20, 0x63A, 0x64A, 0x631, 0x20, 0x645, 0x62A, 0x637, 0x627, 0x628,
       0x642, 0x629]"

definition msg_warning :: pystr where
  "msg_warning =
     [0x62A, 0x62D, 0x630, 0x64A, 0x631, 0x20, 0x2D, 0x20, 0x627, 0x644, 0x62A, 0x642,
       0x631, 0x64A, 0x631, 0x20, 0x642, 0x62F, 0x20, 0x644, 0x627, 0x20, 0x64A, 0x643,
       0x648, 0x646, 0x20, 0x635, 0x62D, 0x64A, 0x62D, 0x627, 0x64B]"

text \<open>The second and third verdict of demo mode are worded differently.\<close>

definition msg_demo_partial :: pystr where
  "msg_demo_partial =
     [0x62A, 0x62D, 0x642, 0x642, 0x20, 0x62C, 0x632, 0x626, 0x64A, 0x20, 0x2D, 0x20,
       0x628, 0x639, 0x636, 0x20, 0x627, 0x644, 0x628, 0x64A, 0x627, 0x646, 0x627,
       0x62A, 0x20, 0x62A, 0x62D, 0x62A, 0x627, 0x62C, 0x20, 0x645, 0x631, 0x627,
       0x62C, 0x639, 0x629]"

definition msg_demo_warning :: pystr where
  "msg_demo_warning =
     [0x62A, 0x62D, 0x630, 0x64A, 0x631, 0x20, 0x2D, 0x20, 0x64A, 0x631, 0x62C, 0x649,
       0x20, 0x627, 0x644, 0x62A, 0x623, 0x643, 0x62F, 0x20, 0x645, 0x646, 0x20, 0x635,
       0x62D, 0x629, 0x20, 0x627, 0x644, 0x628, 0x64A, 0x627, 0x646, 0x627, 0x62A]"

text \<open>"matches - the distance is \<dots> km (\<dots>)", "does not match - the distance is \<dots> km"\<close>
definition msg_demo_near :: "pystr \<Rightarrow> pystr \<Rightarrow> pystr" where
  "msg_demo_near km place =
     [0x645, 0x637, 0x627, 0x628, 0x642, 0x20, 0x2D, 0x20, 0x627, 0x644, 0x645, 0x633,
       0x627, 0x641, 0x629, 0x20]
     @ km @ [0x20, 0x643, 0x645, 0x20, 0x28] @ place @ asc '')''"

definition msg_demo_far :: "pystr \<Rightarrow> pystr" where
  "msg_demo_far km =
     [0x63A, 0x64A, 0x631, 0x20, 0x645, 0x637, 0x627, 0x628, 0x642, 0x20, 0x2D, 0x20,
       0x627, 0x644, 0x645, 0x633, 0x627, 0x641, 0x629, 0x20]
     @ km @ [0x20, 0x643, 0x645]"

text \<open>"the location: \<dots> - verified"\<close>
definition msg_demo_fallback :: "pystr \<Rightarrow> pystr" where
  "msg_demo_fallback user_address =
     [0x627, 0x644, 0x645, 0x648, 0x642, 0x639, 0x3A, 0x20] @ take 4 user_address
     @ [0x20, 0x2D, 0x20, 0x62A, 0x645, 0x20, 0x627, 0x644, 0x62A, 0x62D, 0x642, 0x642]"

text \<open>
  Demo mode, the branch of \<^verbatim>\<open>verify_report\<close> taken when no text was extracted. Its
  location step geocodes the user's address and, when that gives a point, invents a
  report point near it and measures the distance; otherwise it declares a match. The
  step returns the result so far and the line for the breakdown.
\<close>

definition demo_location ::
  "'f world \<Rightarrow> verification_result \<Rightarrow> pystr \<Rightarrow> exn + verification_result \<times> pystr" where
  "demo_location W r user_address =
     (let ((user_lat, user_lng, user_location), k1) = geocode_address W 0 user_address
      in if nonzero W user_lat \<and> nonzero W user_lng
         then
           (let offset_lat = random_uniform W k1 (f_lit W (- 2) 2) (f_lit W 2 2);
                offset_lng = random_uniform W (Suc k1) (f_lit W (- 15) 3) (f_lit W 15 3);
                report_lat = f_add W (num_f W user_lat) offset_lat;
                report_lng = f_add W (num_f W user_lng) offset_lng
            in case calculate_distance_km W report_lat report_lng
                      (num_f W user_lat) (num_f W user_lng) of
                 Inl e \<Rightarrow> Inl e
               | Inr distance \<Rightarrow>
                   (let (place, k2) = reverse_geocode W (Suc (Suc k1)) report_lat report_lng;
                        report_location = (if place \<noteq> [] then place else user_location);
                        r = r\<lparr>location_match := f_le W distance (MAX_DISTANCE_KM W)\<rparr>;
                        r = r\<lparr>extracted_location :=
                                f_format W 6 report_lat @ asc '', '' @ f_format W 6 report_lng\<rparr>
                    in Inr (r, if location_match r
                               then msg_demo_near (f_format W 1 distance) report_location
                               else msg_demo_far (f_format W 1 distance))))
         else Inr (r\<lparr>location_match := True\<rparr>, msg_demo_fallback user_address))"

text \<open>The confidence and the verdict of demo mode.\<close>

definition demo_confidence :: "verification_result \<Rightarrow> verification_result" where
  "demo_confidence r =
     (let conf = 30;
          conf = (if date_match r then conf + 30 else conf);
          conf = (if time_match r then conf + 20 else conf);
          conf = (if location_match r then conf + 20 else conf);
          r = r\<lparr>confidence := min conf 100\<rparr>
      in r\<lparr>message :=
             (if 80 \<le> confidence r then msg_verified
              else if 50 \<le> confidence r then msg_demo_partial
              else msg_demo_warning)\<rparr>)"

definition verify_report_demo ::
  "'f world \<Rightarrow> verification_result \<Rightarrow> pystr \<Rightarrow> pystr \<Rightarrow> pystr \<Rightarrow> pystr
     \<Rightarrow> exn + verification_result" where
  "verify_report_demo W r0 user_date user_start_time user_end_time user_address =
     (let r = r0\<lparr>is_valid_source := True, source_name := najm, date_match := True,
                 time_match := True\<rparr>
      in case demo_location W r user_address of
           Inl e \<Rightarrow> Inl e
         | Inr (r, location_msg) \<Rightarrow>
             (let r = demo_confidence r
              in Inr (r\<lparr>matches :=
                          [''source'' \<mapsto> msg_source_ok (source_name r),
                           ''date'' \<mapsto> prefix_date @ user_date @ suffix_matches,
                           ''time'' \<mapsto> prefix_time @ user_start_time @ asc '' - ''
                                        @ user_end_time @ suffix_matches,
                           ''location'' \<mapsto> location_msg]\<rparr>)))"

text \<open>The rest of \<^verbatim>\<open>verify_report\<close>, for a text that is not empty, in its numbered steps.\<close>

definition verify_source :: "verification_result \<Rightarrow> pystr \<Rightarrow> verification_result" where
  "verify_source r text =
     (let (valid, name) = detect_report_source text;
          r = r\<lparr>is_valid_source := valid, source_name := name\<rparr>
      in r\<lparr>matches := (matches r)(''source'' \<mapsto>
                (if valid then msg_source_ok name else msg_source_unknown))\<rparr>)"

definition verify_date :: "verification_result \<Rightarrow> pystr \<Rightarrow> pystr \<Rightarrow> verification_result" where
  "verify_date r text user_date =
     (let date = extract_date_from_text text;
          r = r\<lparr>extracted_date := date\<rparr>
      in case date of
           Some dt \<Rightarrow>
             (let (date_ok, date_msg) = compare_dates dt user_date 1
              in r\<lparr>date_match := date_ok,
                   matches := (matches r)(''date'' \<mapsto> prefix_date @ date_msg)\<rparr>)
         | None \<Rightarrow> r\<lparr>matches := (matches r)(''date'' \<mapsto> msg_no_date)\<rparr>)"

text \<open>An empty string counts as no time for \<^verbatim>\<open>if extracted_time:\<close>.\<close>

definition verify_time ::
  "verification_result \<Rightarrow> pystr \<Rightarrow> pystr \<Rightarrow> pystr \<Rightarrow> verification_result" where
  "verify_time r text user_start_time user_end_time =
     (let time = extract_time_from_text text;
          r = r\<lparr>extracted_time := time\<rparr>
      in case (case time of None \<Rightarrow> None | Some t \<Rightarrow> if t = [] then None else Some t) of
           Some t \<Rightarrow>
             (let (time_ok, time_msg) = compare_times t user_start_time user_end_time 2
              in r\<lparr>time_match := time_ok,
                   matches := (matches r)(''time'' \<mapsto> prefix_time @ time_msg)\<rparr>)
         | None \<Rightarrow> r\<lparr>matches := (matches r)(''time'' \<mapsto> msg_no_time)\<rparr>)"

definition verify_location ::
  "'f world \<Rightarrow> verification_result \<Rightarrow> pystr \<Rightarrow> pystr \<Rightarrow> exn + verification_result" where
  "verify_location W r text user_address =
     (let (extracted_city, extracted_coords) = extract_location_from_text text;
          r = r\<lparr>extracted_location :=
                  (if extracted_city \<noteq> [] then extracted_city else extracted_coords)\<rparr>
      in if extracted_city \<noteq> [] \<or> extracted_coords \<noteq> []
         then
           (case compare_locations W 0 extracted_city extracted_coords user_address of
              Inl e \<Rightarrow> Inl e
            | Inr ((loc_match, loc_msg), k) \<Rightarrow>
                Inr (r\<lparr>location_match := loc_match,
                       matches := (matches r)(''location'' \<mapsto> prefix_location @ loc_msg)\<rparr>))
         else Inr (r\<lparr>matches := (matches r)(''location'' \<mapsto> msg_no_location_found)\<rparr>))"

text \<open>The confidence and the verdict of the normal path.\<close>

definition calculate_confidence :: "verification_result \<Rightarrow> verification_result" where
  "calculate_confidence r =
     (let score = 0;
          score = (if is_valid_source r then score + 30 else score);
          score = (if date_match r then score + 30 else score);
          score = (if time_match r then score + 20 else score);
          score = (if location_match r then score + 20 else score);
          r = r\<lparr>confidence := score\<rparr>
      in r\<lparr>message :=
             (if 80 \<le> score then msg_verified
              else if 50 \<le> score then msg_partial
              else msg_warning)\<rparr>)"

definition verify_report_scored ::
  "'f world \<Rightarrow> verification_result \<Rightarrow> pystr \<Rightarrow> pystr \<Rightarrow> pystr \<Rightarrow> pystr \<Rightarrow> pystr
     \<Rightarrow> exn + verification_result" where
  "verify_report_scored W r0 text user_date user_start_time user_end_time user_address =
     (let r = verify_source r0 text;
          r = verify_date r text user_date;
          r = verify_time r text user_start_time user_end_time
      in case verify_location W r text user_address of
           Inl e \<Rightarrow> Inl e
         | Inr r \<Rightarrow> Inr (calculate_confidence r))"

text \<open>
  \<^verbatim>\<open>verify_report\<close>. \<open>Inl\<close> is an exception that leaves the function (only the distance
  computation can raise one); \<open>Inr\<close> is the result it returns.
\<close>

definition verify_report ::
  "'f world \<Rightarrow> pystr \<Rightarrow> pystr \<Rightarrow> pystr \<Rightarrow> pystr \<Rightarrow> pystr \<Rightarrow> exn + verification_result" where
  "verify_report W pdf_path user_date user_start_time user_end_time user_address =
     (let result = VerificationResult;
          text = extract_text_from_pdf W pdf_path;
          result = result\<lparr>raw_text := (if text \<noteq> [] then take 500 text else [])\<rparr>
      in if text = []
         then verify_report_demo W result user_date user_start_time user_end_time user_address
         else verify_report_scored W result text user_date user_start_time user_end_time
                user_address)"

section \<open>The caller's decision\<close>

text \<open>
  \<^verbatim>\<open>create_request\<close> in \<^verbatim>\<open>backend/app/main.py\<close> rejects below 80, approves from 95 and
  leaves the request pending in between.
\<close>

datatype decision = Rejected | Approved | Pending

definition decide :: "int \<Rightarrow> decision" where
  "decide conf = (if conf < 80 then Rejected else if 95 \<le> conf then Approved else Pending)"

section \<open>Example worlds\<close>

text \<open>
  A world with exact real arithmetic in place of floating point, in which no operation
  raises, reverse geocoding finds no name and the random offsets are the middle of their
  range. Whether PyMuPDF is installed, what the pages of the document are and what the
  geocoder answers are its parameters. The examples below are evaluated in such worlds.
\<close>

definition real_atan2 :: "real \<Rightarrow> real \<Rightarrow> real" where
  "real_atan2 y x =
     (if 0 < x then arctan (y / x)
      else if x < 0 \<and> 0 \<le> y then arctan (y / x) + pi
      else if x < 0 then arctan (y / x) - pi
      else if 0 < y then pi / 2
      else if y < 0 then - pi / 2
      else 0)"

text \<open>Decimals of the form \<open>digits.digits\<close>, and \<open>n\<close> decimals of a real, rounded half up.\<close>

definition real_of_decimal :: "pystr \<Rightarrow> real option" where
  "real_of_decimal s =
     (case split_on 0x2E s of
        [a, b] \<Rightarrow>
          (if a \<noteq> [] \<and> b \<noteq> [] \<and> list_all is_digit (a @ b)
           then (case (py_int a, py_int b) of
                   (Some x, Some y) \<Rightarrow> Some (of_int x + of_int y / 10 ^ length b)
                 | _ \<Rightarrow> None)
           else None)
      | _ \<Rightarrow> None)"

definition decimal_of_real :: "nat \<Rightarrow> real \<Rightarrow> pystr" where
  "decimal_of_real n x =
     (let q = \<lfloor>x * 10 ^ n + 1 / 2\<rfloor>;
          whole = int_repr (\<bar>q\<bar> div 10 ^ n);
          part = int_repr (\<bar>q\<bar> mod 10 ^ n)
      in (if q < 0 then [0x2D] else []) @ whole
         @ (if n = 0 then [] else [0x2E] @ replicate (n - length part) 0x30 @ part))"

definition ideal_world ::
  "bool \<Rightarrow> pystr list option \<Rightarrow> (nat \<Rightarrow> pystr \<Rightarrow> (real \<times> real \<times> pystr) option) \<Rightarrow> real world" where
  "ideal_world lib pages search =
     \<lparr>f_lit = (\<lambda>m k. of_int m / 10 ^ k),
      f_of_int = of_int,
      f_add = (+),
      f_sub = (-),
      f_mul = (*),
      f_div = (/),
      f_square = (\<lambda>x. x * x),
      f_sin = (\<lambda>x. Some (sin x)),
      f_cos = (\<lambda>x. Some (cos x)),
      f_sqrt = (\<lambda>x. Some (sqrt x)),
      f_radians = (\<lambda>x. x * pi / 180),
      f_atan2 = real_atan2,
      f_eq0 = (\<lambda>x. x = 0),
      f_le = (\<le>),
      f_parse = real_of_decimal,
      f_format = decimal_of_real,
      unicode_upper = map upper_cp,
      has_pymupdf = lib,
      fitz_pages = (\<lambda>path. pages),
      locationiq_search = search,
      locationiq_reverse = (\<lambda>k lat lng. []),
      random_uniform = (\<lambda>k a b. (a + b) / 2)\<rparr>"

text \<open>No PyMuPDF and no network; and a one-page document that reads \<open>x\<close>, no network.\<close>

definition bare_world :: "real world" where
  "bare_world = ideal_world False None (\<lambda>k query. None)"

definition page_world :: "pystr \<Rightarrow> real world" where
  "page_world text = ideal_world True (Some [text]) (\<lambda>k query. None)"

section \<open>The national address token, as the specification describes it\<close>

text \<open>
  "Four letters immediately followed by four digits." The letters are those the pattern
  \<^verbatim>\<open>[A-Z]\<close> accepts when case is ignored: the ASCII letters and the four characters that
  fold to one of them; the digits are the decimal digits of Unicode.
\<close>

definition address_letter :: "nat \<Rightarrow> bool" where
  "address_letter c =
     ((0x41 \<le> c \<and> c \<le> 0x5A) \<or> (0x61 \<le> c \<and> c \<le> 0x7A)
      \<or> c = 0x130 \<or> c = 0x131 \<or> c = 0x17F \<or> c = 0x212A)"

definition is_address_token :: "pystr \<Rightarrow> bool" where
  "is_address_token t =
     (length t = 8 \<and> list_all address_letter (take 4 t) \<and> list_all is_digit (drop 4 t))"

text \<open>The token that starts first in a text, if there is one.\<close>

fun first_token :: "pystr \<Rightarrow> pystr option" where
  "first_token [] = None"
| "first_token (c # cs) =
     (if 8 \<le> length (c # cs) \<and> is_address_token (take 8 (c # cs)) then Some (take 8 (c # cs))
      else first_token cs)"

section \<open>What the groups of a pattern can capture\<close>

text \<open>
  The extractors apply \<^verbatim>\<open>int\<close> to groups of their patterns and format the results. To
  show that neither can fail there, patterns are classified: a pattern is \<open>digits_only\<close>
  when it can match decimal digits only, \<open>never_empty\<close> when it cannot match the empty
  string, \<open>width\<close> bounds the number of characters it can match, \<open>digit_groups D\<close> holds
  when each of its groups with a number in \<open>D\<close> matches between one and four decimal
  digits, and \<open>sure_groups\<close> are the groups that take part in every match.
\<close>

fun digit_class :: "cc \<Rightarrow> bool" where
  "digit_class Digit = True"
| "digit_class (Chr p) = (0x30 \<le> p \<and> p \<le> 0x39)"
| "digit_class k = False"

fun digits_only :: "re \<Rightarrow> bool" where
  "digits_only Eps = True"
| "digits_only (C k) = digit_class k"
| "digits_only (Rep k lo hi greedy) = digit_class k"
| "digits_only (Seq a b) = (digits_only a \<and> digits_only b)"
| "digits_only (Alt a b) = (digits_only a \<and> digits_only b)"
| "digits_only (Grp n a) = digits_only a"
| "digits_only (Opt a) = digits_only a"

fun never_empty :: "re \<Rightarrow> bool" where
  "never_empty Eps = False"
| "never_empty (C k) = True"
| "never_empty (Rep k lo hi greedy) = (1 \<le> lo)"
| "never_empty (Seq a b) = (never_empty a \<or> never_empty b)"
| "never_empty (Alt a b) = (never_empty a \<and> never_empty b)"
| "never_empty (Grp n a) = never_empty a"
| "never_empty (Opt a) = False"

fun width :: "re \<Rightarrow> nat option" where
  "width Eps = Some 0"
| "width (C k) = Some 1"
| "width (Rep k lo hi greedy) = hi"
| "width (Seq a b) =
     (case (width a, width b) of (Some x, Some y) \<Rightarrow> Some (x + y) | _ \<Rightarrow> None)"
| "width (Alt a b) =
     (case (width a, width b) of (Some x, Some y) \<Rightarrow> Some (max x y) | _ \<Rightarrow> None)"
| "width (Grp n a) = width a"
| "width (Opt a) = width a"

definition few_digits :: "re \<Rightarrow> bool" where
  "few_digits r =
     (digits_only r \<and> never_empty r \<and> (case width r of None \<Rightarrow> False | Some k \<Rightarrow> k \<le> 4))"

fun digit_groups :: "nat set \<Rightarrow> re \<Rightarrow> bool" where
  "digit_groups D (Seq a b) = (digit_groups D a \<and> digit_groups D b)"
| "digit_groups D (Alt a b) = (digit_groups D a \<and> digit_groups D b)"
| "digit_groups D (Grp n a) = ((n \<in> D \<longrightarrow> few_digits a) \<and> digit_groups D a)"
| "digit_groups D (Opt a) = digit_groups D a"
| "digit_groups D r = True"

fun sure_groups :: "re \<Rightarrow> nat set" where
  "sure_groups (Seq a b) = sure_groups a \<union> sure_groups b"
| "sure_groups (Alt a b) = sure_groups a \<inter> sure_groups b"
| "sure_groups (Grp n a) = insert n (sure_groups a)"
| "sure_groups r = {}"

text \<open>Captures whose groups in \<open>D\<close> are strings of one to four decimal digits.\<close>

definition digit_caps :: "nat set \<Rightarrow> caps \<Rightarrow> bool" where
  "digit_caps D g =
     (\<forall>n w. n \<in> D \<and> map_of g n = Some w
        \<longrightarrow> w \<noteq> [] \<and> list_all is_digit w \<and> length w \<le> 4)"

section \<open>Evaluation rules\<close>

lemmas str_eval = asc_def py_int_def int_max_str_digits_def int_strip_def int_space_def
  unicode_space_def decimal_value_def nd_zeros_def hm_minutes_def

lemmas re_eval = found_def lit_def seqs_def alts_def grp_def rep_counts_def fold_case_def
  is_digit_def decimal_value_def nd_zeros_def unicode_space_def asc_def

lemmas int_eval = py_int_def int_max_str_digits_def int_strip_def int_space_def grp_int_def

lemmas date_eval = strptime_ymd_def ymd_format_def datetime_def days_in_month_def is_leap_def
  toordinal_def days_before_year_def days_before_month_def

lemmas fmt_eval = hhmm_def fmt_02d_def int_repr_def dec_digits.simps

lemmas pat_eval = d12_def d2_def year20_def slash_or_dash_def label_accident_time_def
  label_issue_date_def label_accident_place_def date_label_pattern_def date_patterns_def
  dmy_of_groups_def date_of_groups_def am_short_def am_long_def pm_short_def pm_long_def
  label_hour_def time_label_pattern_def time_patterns_def time_of_groups_def city_letters_def
  location_pattern_def areas_def decimal_number_def coord_pattern_def address_pattern_def
  upper_cp_def py_strip_def

lemmas source_eval = najm_patterns_def traffic_patterns_def najm_def traffic_def

section \<open>Integers and their decimal strings\<close>

lemma split_on_absent: "sep \<notin> set s \<Longrightarrow> split_on sep s = [s]"
  by (induction s) auto

lemma decimal_value_ascii:
  assumes "0x30 \<le> c" and "c \<le> 0x39"
  shows "decimal_value c = Some (c - 0x30)"
  using assms by (simp add: decimal_value_def nd_zeros_def)

lemma dec_digits_ascii: "c \<in> set (dec_digits n) \<Longrightarrow> 0x30 \<le> c \<and> c \<le> 0x39"
proof (induction n rule: dec_digits.induct)
  case (1 n)
  show ?case
  proof (cases "n < 10")
    case True
    with "1.prems" show ?thesis
      by (simp add: dec_digits.simps [of n])
  next
    case False
    have "n mod 10 < 10"
      by simp
    with False "1.prems" "1.IH" show ?thesis
      by (auto simp: dec_digits.simps [of n])
  qed
qed

lemma dec_digits_not_empty: "dec_digits n \<noteq> []"
  by (subst dec_digits.simps) simp

lemma int_digits_ascii:
  assumes "\<forall>c\<in>set cs. 0x30 \<le> c \<and> c \<le> 0x39"
  shows "int_digits prev cs =
    (if cs = [] \<and> \<not> prev then None else Some (map (\<lambda>c. c - 0x30) cs))"
  using assms
proof (induction cs arbitrary: prev)
  case Nil
  then show ?case by simp
next
  case (Cons c cs)
  then have c: "0x30 \<le> c" "c \<le> 0x39" and cs: "\<forall>c\<in>set cs. 0x30 \<le> c \<and> c \<le> 0x39"
    by simp_all
  from c have "c \<noteq> 0x5F"
    by simp
  with decimal_value_ascii [OF c] Cons.IH [OF cs, of True] show ?case
    by simp
qed

lemma dec_digits_value:
  "foldl (\<lambda>a d. 10 * a + d) 0 (map (\<lambda>c. c - 0x30) (dec_digits n)) = n"
proof (induction n rule: dec_digits.induct)
  case (1 n)
  show ?case
  proof (cases "n < 10")
    case True
    then show ?thesis
      by (simp add: dec_digits.simps [of n])
  next
    case False
    with "1.IH" show ?thesis
      by (simp add: dec_digits.simps [of n])
  qed
qed


lemma int_strip_id:
  assumes "\<forall>c\<in>set cs. \<not> int_space c"
  shows "int_strip cs = cs"
proof -
  have d: "dropWhile int_space xs = xs" if "\<forall>c\<in>set xs. \<not> int_space c" for xs
    using that by (cases xs) simp_all
  from assms have "dropWhile int_space cs = cs"
    by (rule d)
  moreover from assms have "dropWhile int_space (rev cs) = rev cs"
    by (intro d) simp
  ultimately show ?thesis
    by (simp add: int_strip_def)
qed

lemma ascii_digit_no_space: "0x30 \<le> c \<and> c \<le> 0x39 \<Longrightarrow> \<not> int_space c"
  by (simp add: int_space_def unicode_space_def)

lemma dec_digits_length: "0 < k \<Longrightarrow> length (dec_digits n) \<le> k \<longleftrightarrow> n < 10 ^ k"
proof (induction n arbitrary: k rule: dec_digits.induct)
  case (1 n)
  show ?case
  proof (cases "n < 10")
    case True
    have "(10 :: nat) ^ 1 \<le> 10 ^ k"
      using "1.prems" by (intro power_increasing) simp_all
    with True "1.prems" show ?thesis
      by (simp add: dec_digits.simps [of n])
  next
    case False
    note big = this
    show ?thesis
    proof (cases "k = 1")
      case True
      with big dec_digits_not_empty [of "n div 10"] show ?thesis
        by (cases "dec_digits (n div 10)") (simp_all add: dec_digits.simps [of n])
    next
      case False
      with "1.prems" obtain j where k: "k = Suc j" and j: "0 < j"
        by (cases k) auto
      from "1.IH" [OF big j]
      have "length (dec_digits (n div 10)) \<le> j \<longleftrightarrow> n div 10 < 10 ^ j" .
      also have "\<dots> \<longleftrightarrow> n < 10 ^ j * 10"
        by (simp add: div_less_iff_less_mult)
      finally show ?thesis
        using big by (simp add: dec_digits.simps [of n] k mult.commute)
    qed
  qed
qed

lemma limit_bounds: "0 < int_max_str_digits" "2 \<le> int_max_str_digits" "7 \<le> int_max_str_digits"
  by (simp_all add: int_max_str_digits_def)

lemma within_limit:
  "int_max_str_digits < length (dec_digits (nat \<bar>i\<bar>))
     \<longleftrightarrow> 10 ^ int_max_str_digits \<le> \<bar>i\<bar>"
proof -
  have "length (dec_digits (nat \<bar>i\<bar>)) \<le> int_max_str_digits
      \<longleftrightarrow> nat \<bar>i\<bar> < 10 ^ int_max_str_digits"
    by (rule dec_digits_length) (rule limit_bounds)
  also have "\<dots> \<longleftrightarrow> \<bar>i\<bar> < 10 ^ int_max_str_digits"
    by (simp add: nat_less_iff)
  finally show ?thesis
    by linarith
qed

lemma py_str_cases:
  "py_str i = (if 10 ^ int_max_str_digits \<le> \<bar>i\<bar> then None else Some (int_repr i))"
  unfolding py_str_def within_limit ..

lemma py_int_digits:
  assumes "\<forall>c\<in>set cs. 0x30 \<le> c \<and> c \<le> 0x39" and "cs \<noteq> []"
  shows "py_int cs =
    (if int_max_str_digits < length cs then None
     else Some (int (foldl (\<lambda>a d. 10 * a + d) 0 (map (\<lambda>c. c - 0x30) cs))))"
proof -
  from assms(1) have "\<forall>c\<in>set cs. \<not> int_space c"
    using ascii_digit_no_space by blast
  then have "int_strip cs = cs"
    by (rule int_strip_id)
  moreover from assms have "hd cs \<noteq> 0x2D \<and> hd cs \<noteq> 0x2B"
    by (cases cs) auto
  ultimately show ?thesis
    using assms by (simp add: py_int_def Let_def int_digits_ascii)
qed

lemma py_int_minus_digits:
  assumes "\<forall>c\<in>set cs. 0x30 \<le> c \<and> c \<le> 0x39" and "cs \<noteq> []"
  shows "py_int (0x2D # cs) =
    (if int_max_str_digits < length cs then None
     else Some (- int (foldl (\<lambda>a d. 10 * a + d) 0 (map (\<lambda>c. c - 0x30) cs))))"
proof -
  have "\<not> int_space 0x2D"
    by (simp add: int_space_def unicode_space_def)
  moreover from assms(1) have "\<forall>c\<in>set cs. \<not> int_space c"
    using ascii_digit_no_space by blast
  ultimately have "int_strip (0x2D # cs) = 0x2D # cs"
    by (intro int_strip_id) simp
  then show ?thesis
    using assms by (simp add: py_int_def Let_def int_digits_ascii)
qed

lemma zeros_value:
  "foldl (\<lambda>a d. 10 * a + d) 0 (map (\<lambda>c. c - 0x30) (replicate k 0x30 @ cs))
     = foldl (\<lambda>a d. 10 * a + d) (0 :: nat) (map (\<lambda>c. c - 0x30) cs)"
  by (induction k) simp_all

lemma nines_value:
  "foldl (\<lambda>a d. 10 * a + d) a (map (\<lambda>c. c - 0x30) (replicate k 0x39))
     = (a + 1) * 10 ^ k - (1 :: nat)"
proof (induction k arbitrary: a)
  case 0
  show ?case by simp
next
  case (Suc k)
  have "(10 * a + 9 + 1) * 10 ^ k = (a + 1) * 10 ^ Suc k"
    by (simp add: algebra_simps)
  with Suc [of "10 * a + 9"] show ?case
    by simp
qed

lemma py_int_int_repr:
  assumes "\<bar>i\<bar> < 10 ^ int_max_str_digits"
  shows "py_int (int_repr i) = Some i"
proof -
  from assms have l: "\<not> int_max_str_digits < length (dec_digits (nat \<bar>i\<bar>))"
    unfolding within_limit by simp
  show ?thesis
  proof (cases "i < 0")
    case True
    then have "nat \<bar>i\<bar> = nat (- i)"
      by simp
    with l True py_int_minus_digits [of "dec_digits (nat (- i))"]
      dec_digits_ascii dec_digits_not_empty
    show ?thesis
      by (simp add: int_repr_def dec_digits_value)
  next
    case False
    then have "nat \<bar>i\<bar> = nat i"
      by simp
    with l False py_int_digits [of "dec_digits (nat i)"] dec_digits_ascii dec_digits_not_empty
    show ?thesis
      by (simp add: int_repr_def dec_digits_value)
  qed
qed

lemma py_int_fmt_02d:
  assumes "\<bar>i\<bar> < 10 ^ int_max_str_digits"
  shows "py_int (fmt_02d i) = Some i"
proof (cases "i < 0")
  case True
  then have "2 \<le> length (int_repr i)"
    using dec_digits_not_empty [of "nat (- i)"]
    by (cases "dec_digits (nat (- i))") (simp_all add: int_repr_def)
  then show ?thesis
    by (simp add: fmt_02d_def Let_def py_int_int_repr [OF assms])
next
  case False
  let ?z = "replicate (2 - length (dec_digits (nat i))) 0x30"
  from False have "nat \<bar>i\<bar> = nat i"
    by simp
  with assms have "length (dec_digits (nat i)) \<le> int_max_str_digits"
    using within_limit [of i] by simp
  with limit_bounds(2) have l: "\<not> int_max_str_digits < length (?z @ dec_digits (nat i))"
    by simp
  have a: "\<forall>c\<in>set (?z @ dec_digits (nat i)). 0x30 \<le> c \<and> c \<le> 0x39"
    using dec_digits_ascii by auto
  have b: "?z @ dec_digits (nat i) \<noteq> []"
    using dec_digits_not_empty by simp
  have "py_int (?z @ dec_digits (nat i)) = Some (int (nat i))"
    unfolding py_int_digits [OF a b] if_not_P [OF l] zeros_value dec_digits_value ..
  with False show ?thesis
    by (simp add: fmt_02d_def Let_def int_repr_def)
qed

lemma fmt_02d_no_colon: "0x3A \<notin> set (fmt_02d i)"
  using dec_digits_ascii [of "0x3A"]
  by (auto simp: fmt_02d_def Let_def int_repr_def)

lemma split_on_first:
  "sep \<notin> set a \<Longrightarrow> split_on sep (a @ sep # rest) = a # split_on sep rest"
  by (induction a) (auto split: list.splits)

lemma hm_minutes_hhmm:
  assumes "\<bar>h\<bar> < 10 ^ int_max_str_digits" and "\<bar>m\<bar> < 10 ^ int_max_str_digits"
  shows "hm_minutes (hhmm h m) = Inr (h * 60 + m)"
proof -
  have "split_on 0x3A (fmt_02d h @ 0x3A # fmt_02d m) = [fmt_02d h, fmt_02d m]"
    by (simp add: split_on_first split_on_absent fmt_02d_no_colon)
  then show ?thesis
    by (simp add: hm_minutes_def hhmm_def py_int_fmt_02d [OF assms(1)]
        py_int_fmt_02d [OF assms(2)])
qed

section \<open>Parsed times\<close>

lemma small_within_limit:
  assumes "\<bar>i\<bar> < 10000000"
  shows "\<bar>i :: int\<bar> < 10 ^ int_max_str_digits"
proof -
  have "(10 :: int) ^ 7 \<le> 10 ^ int_max_str_digits"
    using limit_bounds(3) by (intro power_increasing) simp_all
  with assms show ?thesis
    by simp
qed

lemma msg_time_outside_cases:
  assumes "0 \<le> d"
  shows "msg_time_outside d =
    (if 10 ^ int_max_str_digits \<le> d then Inl ValueError
     else Inr ([0x62E, 0x627, 0x631, 0x62C, 0x20, 0x627, 0x644, 0x646, 0x637, 0x627, 0x642,
                0x20, 0x628, 0x640, 0x20]
               @ dec_digits (nat d) @ [0x20, 0x633, 0x627, 0x639, 0x629]))"
  using assms by (simp add: msg_time_outside_def py_str_cases int_repr_def)

lemma compare_times_parsed:
  assumes "hm_minutes extracted = Inr e" and "hm_minutes user_start = Inr s"
    and "hm_minutes user_end = Inr en"
  shows "compare_times extracted user_start user_end tol =
           (if s - tol * 60 \<le> e \<and> e \<le> en + tol * 60 then (True, msg_time_in_range)
            else if 10 ^ int_max_str_digits \<le> min \<bar>e - s\<bar> \<bar>e - en\<bar> div 60
            then (False, msg_cannot_compare)
            else (False,
                  [0x62E, 0x627, 0x631, 0x62C, 0x20, 0x627, 0x644, 0x646, 0x637, 0x627,
                   0x642, 0x20, 0x628, 0x640, 0x20]
                  @ dec_digits (nat (min \<bar>e - s\<bar> \<bar>e - en\<bar> div 60))
                  @ [0x20, 0x633, 0x627, 0x639, 0x629]))"
proof -
  have "0 \<le> min \<bar>e - s\<bar> \<bar>e - en\<bar> div 60"
    by (simp add: pos_imp_zdiv_nonneg_iff)
  from msg_time_outside_cases [OF this] assms show ?thesis
    by (simp add: compare_times_def compare_times_try_def Let_def)
qed

lemma compare_times_unparsed:
  assumes "hm_minutes extracted = Inl x \<or> hm_minutes user_start = Inl x
    \<or> hm_minutes user_end = Inl x"
  shows "compare_times extracted user_start user_end tol = (False, msg_cannot_compare)"
  using assms
  by (auto simp: compare_times_def compare_times_try_def Let_def split: sum.splits)

lemma minutes_1734: "hm_minutes (asc ''17:34'') = Inr 1054"
  by (simp add: str_eval)

lemma minutes_2159: "hm_minutes (asc ''21:59'') = Inr 1319"
  by (simp add: str_eval)

lemma minutes_1700: "hm_minutes (asc ''17:00'') = Inr 1020"
  by (simp add: str_eval)

lemma minutes_1800: "hm_minutes (asc ''18:00'') = Inr 1080"
  by (simp add: str_eval)

lemma minutes_2300: "hm_minutes (asc ''23:00'') = Inr 1380"
  by (simp add: str_eval)

lemma minutes_0100: "hm_minutes (asc ''01:00'') = Inr 60"
  by (simp add: str_eval)

lemma minutes_170000: "hm_minutes (asc ''17:00:00'') = Inr 1020"
  by (simp add: str_eval)

lemma minutes_1730: "hm_minutes (asc ''17:30'') = Inr 1050"
  by (simp add: str_eval)

lemma minutes_abc: "hm_minutes (asc ''abc'') = Inl ValueError"
  by (simp add: str_eval)

lemma minutes_17: "hm_minutes (asc ''17'') = Inl IndexError"
  by (simp add: str_eval)

text \<open>Fields at the limit: as many nines as \<^verbatim>\<open>int\<close> still accepts, and one zero too many.\<close>

lemma py_int_nines:
  "py_int (replicate int_max_str_digits 0x39) = Some (10 ^ int_max_str_digits - 1)"
proof -
  let ?n = "replicate int_max_str_digits (0x39 :: nat)"
  have a: "\<forall>c\<in>set ?n. 0x30 \<le> c \<and> c \<le> 0x39"
    by simp
  have b: "?n \<noteq> []"
    using limit_bounds(1) by simp
  have "int (10 ^ int_max_str_digits - 1) = 10 ^ int_max_str_digits - 1"
    by (simp add: of_nat_diff)
  then show ?thesis
    unfolding py_int_digits [OF a b] nines_value by simp
qed

lemma minutes_nines:
  "hm_minutes (replicate int_max_str_digits 0x39 @ 0x3A # replicate int_max_str_digits 0x39)
     = Inr (61 * (10 ^ int_max_str_digits - 1))"
proof -
  let ?n = "replicate int_max_str_digits (0x39 :: nat)"
  have n: "0x3A \<notin> set ?n"
    by simp
  have "split_on 0x3A (?n @ 0x3A # ?n) = [?n, ?n]"
    unfolding split_on_first [OF n] split_on_absent [OF n] ..
  then show ?thesis
    by (simp add: hm_minutes_def py_int_nines)
qed

lemma minutes_long_field:
  assumes "int_max_str_digits < k"
  shows "hm_minutes (replicate k 0x30 @ 0x3A # rest) = Inl ValueError"
proof -
  let ?z = "replicate k (0x30 :: nat)"
  have a: "\<forall>c\<in>set ?z. 0x30 \<le> c \<and> c \<le> 0x39"
    by simp
  from assms have b: "?z \<noteq> []"
    by auto
  from assms have "py_int ?z = None"
    unfolding py_int_digits [OF a b] by simp
  moreover have "0x3A \<notin> set ?z"
    by simp
  then have "split_on 0x3A (?z @ 0x3A # rest) = ?z # split_on 0x3A rest"
    by (rule split_on_first)
  ultimately show ?thesis
    by (simp add: hm_minutes_def)
qed

lemma compare_times_nines:
  "compare_times (asc ''17:30'')
     (replicate int_max_str_digits 0x39 @ 0x3A # replicate int_max_str_digits 0x39)
     (replicate int_max_str_digits 0x39 @ 0x3A # replicate int_max_str_digits 0x39) 2
   = (False, msg_cannot_compare)"
proof -
  define p :: int where "p = 10 ^ int_max_str_digits"
  have "(10 :: int) ^ 4 \<le> 10 ^ int_max_str_digits"
    using limit_bounds(3) by (intro power_increasing) simp_all
  then have p: "10000 \<le> p"
    by (simp add: p_def)
  then have "\<not> (61 * (p - 1) - 2 * 60 \<le> 1050 \<and> 1050 \<le> 61 * (p - 1) + 2 * 60)"
    and "p \<le> min \<bar>1050 - 61 * (p - 1)\<bar> \<bar>1050 - 61 * (p - 1)\<bar> div 60"
    by simp_all
  then show ?thesis
    unfolding compare_times_parsed [OF minutes_1730 minutes_nines minutes_nines] p_def
    by simp
qed

section \<open>Claims about the time comparator\<close>

text \<open>
  C5, as the code has it. The comparator converts the extracted time and both ends of the
  user's window to minutes since midnight (\<open>hm_minutes\<close>, which maps the string written
  for hour \<open>h\<close> and minute \<open>m\<close> to \<open>h * 60 + m\<close>) and reports a match exactly when
  \<open>start - tolerance \<le> extracted \<le> end + tolerance\<close>, the tolerance being
  \<open>max_diff_hours * 60\<close> minutes at either end. On a mismatch the message is
  "outside the range by \<open>d\<close> hour", where \<open>d\<close>, written in decimal digits, is the smaller of
  the two distances to the ends of the window in whole hours: the integer quotient by
  sixty, which for these non-negative distances is the truncated value
  (\<open>60 * d \<le> gap < 60 * d + 60\<close>). That holds as long as \<open>d\<close> has no more decimal digits than
  the interpreter converts (4300); beyond that the message cannot be built and the
  comparator reports "could not compare", still without a match.
\<close>

theorem compare_times_window:
  assumes "hm_minutes extracted = Inr e" and "hm_minutes user_start = Inr s"
    and "hm_minutes user_end = Inr en"
  shows "fst (compare_times extracted user_start user_end tol)
           = (s - tol * 60 \<le> e \<and> e \<le> en + tol * 60)
         \<and> (\<not> (s - tol * 60 \<le> e \<and> e \<le> en + tol * 60)
              \<and> min \<bar>e - s\<bar> \<bar>e - en\<bar> div 60 < 10 ^ int_max_str_digits
            \<longrightarrow> snd (compare_times extracted user_start user_end tol)
                  = [0x62E, 0x627, 0x631, 0x62C, 0x20, 0x627, 0x644, 0x646, 0x637, 0x627,
                     0x642, 0x20, 0x628, 0x640, 0x20]
                    @ dec_digits (nat (min \<bar>e - s\<bar> \<bar>e - en\<bar> div 60))
                    @ [0x20, 0x633, 0x627, 0x639, 0x629])
         \<and> (\<not> (s - tol * 60 \<le> e \<and> e \<le> en + tol * 60)
              \<and> 10 ^ int_max_str_digits \<le> min \<bar>e - s\<bar> \<bar>e - en\<bar> div 60
            \<longrightarrow> snd (compare_times extracted user_start user_end tol) = msg_cannot_compare)
         \<and> 60 * (min \<bar>e - s\<bar> \<bar>e - en\<bar> div 60) \<le> min \<bar>e - s\<bar> \<bar>e - en\<bar>
         \<and> min \<bar>e - s\<bar> \<bar>e - en\<bar> < 60 * (min \<bar>e - s\<bar> \<bar>e - en\<bar> div 60) + 60
         \<and> (\<bar>h\<bar> < 10 ^ int_max_str_digits \<and> \<bar>m\<bar> < 10 ^ int_max_str_digits
            \<longrightarrow> hm_minutes (hhmm h m) = Inr (h * 60 + m))"
    (is "?match \<and> ?reported \<and> ?refused \<and> ?below \<and> ?above \<and> ?minutes")
proof -
  note c = compare_times_parsed [OF assms, of tol]
  have ?match
    unfolding c by simp
  moreover have ?reported
    unfolding c by simp
  moreover have ?refused
    unfolding c by simp
  moreover have "60 * (g div 60) \<le> g \<and> g < 60 * (g div 60) + 60" for g :: int
    by presburger
  then have ?below and ?above
    by blast+
  moreover have ?minutes
    using hm_minutes_hhmm [of h m] by blast
  ultimately show ?thesis
    by blast
qed

theorem compare_times_window_witness:
  "fst (compare_times (asc ''17:34'') (asc ''17:00'') (asc ''18:00'') 2)
   \<and> \<not> fst (compare_times (asc ''21:59'') (asc ''17:00'') (asc ''18:00'') 2)
   \<and> snd (compare_times (asc ''21:59'') (asc ''17:00'') (asc ''18:00'') 2)
       = [0x62E, 0x627, 0x631, 0x62C, 0x20, 0x627, 0x644, 0x646, 0x637, 0x627, 0x642, 0x20,
          0x628, 0x640, 0x20]
         @ [0x33] @ [0x20, 0x633, 0x627, 0x639, 0x629]
   \<and> hm_minutes (hhmm 21 59) = Inr 1319"
  using compare_times_window [OF minutes_1734 minutes_1700 minutes_1800, of 2 21 59]
    compare_times_window [OF minutes_2159 minutes_1700 minutes_1800, of 2 21 59]
    small_within_limit [of 3] small_within_limit [of 21] small_within_limit [of 59]
  by (simp add: dec_digits.simps)

text \<open>
  The claim as written fails when the distance in hours has more than 4300 digits. The
  fields of the user's window arrive as they were typed: with both ends of the window
  given as 4300 nines, a colon and 4300 nines, every field is converted (to
  \<open>61 * (10 ^ 4300 - 1)\<close> minutes), the time 17:30 is far outside the window, and the
  message is "could not compare", which does not report the distance.
\<close>

theorem gap_not_reported_counterexample:
  "hm_minutes (replicate 4300 0x39 @ 0x3A # replicate 4300 0x39)
     = Inr (61 * (10 ^ 4300 - 1))
   \<and> hm_minutes (asc ''17:30'') = Inr 1050
   \<and> compare_times (asc ''17:30'')
       (replicate 4300 0x39 @ 0x3A # replicate 4300 0x39)
       (replicate 4300 0x39 @ 0x3A # replicate 4300 0x39) 2
     = (False, msg_cannot_compare)"
  unfolding int_max_str_digits_def [symmetric]
  using minutes_nines minutes_1730 compare_times_nines by (intro conjI)

text \<open>
  C3, as the code has it. The comparator knows no window that crosses midnight and no
  negative tolerance: for a window with \<open>start \<le> end\<close> and a tolerance that is not
  negative, a time equal to either end of the window matches; and for every window and
  every tolerance a time more than the tolerance before the start, or more than the
  tolerance after the end, does not match.
\<close>

theorem compare_times_boundaries:
  assumes "hm_minutes extracted = Inr e" and "hm_minutes user_start = Inr s"
    and "hm_minutes user_end = Inr en"
  shows "(0 \<le> tol \<and> s \<le> en \<and> (e = s \<or> e = en)
            \<longrightarrow> fst (compare_times extracted user_start user_end tol))
         \<and> (e < s - tol * 60 \<or> en + tol * 60 < e
            \<longrightarrow> \<not> fst (compare_times extracted user_start user_end tol))"
proof -
  have "0 \<le> tol \<Longrightarrow> 0 \<le> tol * 60"
    by simp
  then show ?thesis
    unfolding compare_times_parsed [OF assms] by auto
qed

theorem compare_times_boundaries_witness:
  "fst (compare_times (asc ''17:00'') (asc ''17:00'') (asc ''18:00'') 2)
   \<and> fst (compare_times (asc ''18:00'') (asc ''17:00'') (asc ''18:00'') 2)
   \<and> \<not> fst (compare_times (asc ''21:59'') (asc ''17:00'') (asc ''18:00'') 2)"
  using compare_times_boundaries [OF minutes_1700 minutes_1700 minutes_1800, of 2]
    compare_times_boundaries [OF minutes_1800 minutes_1700 minutes_1800, of 2]
    compare_times_boundaries [OF minutes_2159 minutes_1700 minutes_1800, of 2]
  by simp

text \<open>
  The claim as written fails on a window that crosses midnight: with the window 23:00 to
  01:00 and the default tolerance of two hours, the time 23:00, equal to the start of the
  window, is reported as no match. It also fails on a negative tolerance: with the window
  17:00 to 18:00 and a tolerance of minus one hour, 17:00 is reported as no match.
\<close>

theorem compare_times_start_counterexample:
  "\<not> fst (compare_times (asc ''23:00'') (asc ''23:00'') (asc ''01:00'') 2)
   \<and> \<not> fst (compare_times (asc ''17:00'') (asc ''17:00'') (asc ''18:00'') (- 1))"
  by (simp add: compare_times_parsed [OF minutes_2300 minutes_2300 minutes_0100]
      compare_times_parsed [OF minutes_1700 minutes_1700 minutes_1800])

section \<open>Dates within the calendar\<close>

lemma toordinal_bounds:
  assumes "datetime y m d = Some dt"
  shows "0 \<le> toordinal dt \<and> toordinal dt \<le> 4000000"
proof -
  from assms have dt: "dt = Date y m d" and y: "1 \<le> y" "y \<le> 9999"
    and m: "1 \<le> m" "m \<le> 12" and d: "1 \<le> d" "d \<le> days_in_month y m"
    by (auto simp: datetime_def split: if_splits)
  from m have mc: "m = 1 \<or> m = 2 \<or> m = 3 \<or> m = 4 \<or> m = 5 \<or> m = 6 \<or> m = 7 \<or> m = 8
      \<or> m = 9 \<or> m = 10 \<or> m = 11 \<or> m = 12"
    by arith
  then have "days_in_month y m \<le> 31"
    by (auto simp: days_in_month_def)
  with d have d': "0 \<le> d" "d \<le> 31"
    by simp_all
  from mc have b: "0 \<le> days_before_month y m \<and> days_before_month y m \<le> 335"
    by (auto simp: days_before_month_def)
  have "0 \<le> (y - 1) div 4" "(y - 1) div 4 \<le> 2500" "0 \<le> (y - 1) div 100"
    "(y - 1) div 100 \<le> (y - 1) div 4" "0 \<le> (y - 1) div 400" "(y - 1) div 400 \<le> 25"
    using y by (simp_all add: pos_imp_zdiv_nonneg_iff zdiv_mono2 div_le_mono)
  with y have "0 \<le> days_before_year y \<and> days_before_year y \<le> 3660000"
    unfolding days_before_year_def by simp
  with b d' show ?thesis
    by (simp add: toordinal_def dt)
qed

lemma strptime_in_calendar:
  assumes "strptime_ymd s = Inr u"
  shows "\<exists>y m d. datetime y m d = Some u"
proof (cases "rmatch True ymd_format s []")
  case Nil
  with assms show ?thesis
    by (simp add: strptime_ymd_def)
next
  case (Cons m ms)
  with assms show ?thesis
    by (cases "grp_int (snd m) 1"; cases "grp_int (snd m) 2"; cases "grp_int (snd m) 3")
      (auto simp: strptime_ymd_def split: if_splits option.splits)
qed

lemma date_difference_formatted:
  assumes "datetime y m d = Some dt" and "strptime_ymd s = Inr u"
  shows "py_str \<bar>toordinal dt - toordinal u\<bar> = Some (int_repr \<bar>toordinal dt - toordinal u\<bar>)"
proof -
  from strptime_in_calendar [OF assms(2)] obtain y' m' d' where "datetime y' m' d' = Some u"
    by blast
  from toordinal_bounds [OF assms(1)] toordinal_bounds [OF this]
  have "\<bar>\<bar>toordinal dt - toordinal u\<bar>\<bar> < 10000000"
    by linarith
  from small_within_limit [OF this] show ?thesis
    by (simp add: py_str_cases)
qed

lemma compare_dates_parsed:
  assumes "datetime y m d = Some dt" and "strptime_ymd s = Inr u"
  shows "snd (compare_dates dt s days) \<noteq> msg_cannot_compare"
proof -
  define diff where "diff = \<bar>toordinal dt - toordinal u\<bar>"
  from date_difference_formatted [OF assms] have f: "py_str diff = Some (int_repr diff)"
    unfolding diff_def .
  have "compare_dates_try dt s days =
      (if diff \<le> days
       then (if 0 < diff
             then (case msg_date_close diff of Inl e \<Rightarrow> Inl e | Inr msg \<Rightarrow> Inr (True, msg))
             else Inr (True, msg_date_same))
       else (case msg_date_far diff of Inl e \<Rightarrow> Inl e | Inr msg \<Rightarrow> Inr (False, msg)))"
    unfolding compare_dates_try_def assms(2) diff_def by (simp add: Let_def)
  then show ?thesis
    by (simp add: compare_dates_def msg_date_close_def msg_date_far_def f
        msg_cannot_compare_def msg_date_same_def)
qed

section \<open>Claims about malformed input and about the source detector\<close>

lemma strptime_2025_9_2: "strptime_ymd (asc ''2025-9-2'') = Inr (Date 2025 9 2)"
  by (simp add: re_eval int_eval date_eval)

lemma strptime_slashes: "strptime_ymd (asc ''02/09/2025'') = Inl ValueError"
  by (simp add: re_eval int_eval date_eval)

lemma minutes_zeros: "hm_minutes (replicate 4301 0x30 @ asc '':00'') = Inl ValueError"
proof -
  have "int_max_str_digits < 4301"
    by (simp add: int_max_str_digits_def)
  from minutes_long_field [OF this, of "asc ''00''"] show ?thesis
    by (simp add: asc_def)
qed

text \<open>
  C8, as the code has it. Neither comparator raises: whatever exception the body of its
  \<^verbatim>\<open>try\<close> raises, it returns false with the message "could not compare". For a time that
  happens exactly in two cases. One of the three strings has no second field after
  splitting at the colons or a field that \<^verbatim>\<open>int\<close> rejects: every string without a colon
  is such a string, and \<^verbatim>\<open>int\<close> rejects a field of decimal digits exactly when it has more
  digits than the interpreter converts (4300). Or the three strings are converted, the
  time is outside the window, and the distance in hours has more digits than that, so
  that the message of the mismatch cannot be built. For a date, the extracted date being
  a date of the calendar, it happens exactly when \<^verbatim>\<open>strptime\<close> rejects the string for the
  format \<^verbatim>\<open>%Y-%m-%d\<close>. A string that is not of the form HH:MM or YYYY-MM-DD but passes
  these parsers is compared like any other.
\<close>

theorem unparsable_input_cannot_compare:
  "(isl (hm_minutes extracted) \<or> isl (hm_minutes user_start) \<or> isl (hm_minutes user_end)
      \<longrightarrow> compare_times extracted user_start user_end tol = (False, msg_cannot_compare))
   \<and> (isl (strptime_ymd user_date)
      \<longrightarrow> compare_dates dt user_date days = (False, msg_cannot_compare))
   \<and> (0x3A \<notin> set user_start \<longrightarrow> isl (hm_minutes user_start))
   \<and> ((\<forall>c\<in>set field. 0x30 \<le> c \<and> c \<le> 0x39) \<and> field \<noteq> []
      \<longrightarrow> (py_int field = None) = (int_max_str_digits < length field))
   \<and> (hm_minutes extracted = Inr e \<and> hm_minutes user_start = Inr s
        \<and> hm_minutes user_end = Inr en
      \<longrightarrow> (snd (compare_times extracted user_start user_end tol) = msg_cannot_compare)
          = (\<not> (s - tol * 60 \<le> e \<and> e \<le> en + tol * 60)
             \<and> 10 ^ int_max_str_digits \<le> min \<bar>e - s\<bar> \<bar>e - en\<bar> div 60))
   \<and> (datetime (year dt) (month dt) (day dt) = Some dt \<and> \<not> isl (strptime_ymd user_date)
      \<longrightarrow> snd (compare_dates dt user_date days) \<noteq> msg_cannot_compare)"
proof (intro conjI impI)
  assume "isl (hm_minutes extracted) \<or> isl (hm_minutes user_start) \<or> isl (hm_minutes user_end)"
  then show "compare_times extracted user_start user_end tol = (False, msg_cannot_compare)"
    by (auto simp: compare_times_def compare_times_try_def Let_def split: sum.splits)
next
  assume "isl (strptime_ymd user_date)"
  then show "compare_dates dt user_date days = (False, msg_cannot_compare)"
    by (auto simp: compare_dates_def compare_dates_try_def Let_def split: sum.splits)
next
  assume "0x3A \<notin> set user_start"
  then show "isl (hm_minutes user_start)"
    by (simp add: hm_minutes_def split_on_absent split: option.splits)
next
  assume "(\<forall>c\<in>set field. 0x30 \<le> c \<and> c \<le> 0x39) \<and> field \<noteq> []"
  then have a: "\<forall>c\<in>set field. 0x30 \<le> c \<and> c \<le> 0x39" and b: "field \<noteq> []"
    by simp_all
  show "(py_int field = None) = (int_max_str_digits < length field)"
    unfolding py_int_digits [OF a b] by simp
next
  assume "hm_minutes extracted = Inr e \<and> hm_minutes user_start = Inr s
    \<and> hm_minutes user_end = Inr en"
  then have p: "hm_minutes extracted = Inr e" "hm_minutes user_start = Inr s"
    "hm_minutes user_end = Inr en"
    by simp_all
  show "(snd (compare_times extracted user_start user_end tol) = msg_cannot_compare)
    = (\<not> (s - tol * 60 \<le> e \<and> e \<le> en + tol * 60)
       \<and> 10 ^ int_max_str_digits \<le> min \<bar>e - s\<bar> \<bar>e - en\<bar> div 60)"
    unfolding compare_times_parsed [OF p]
    by (simp add: msg_cannot_compare_def msg_time_in_range_def)
next
  assume "datetime (year dt) (month dt) (day dt) = Some dt \<and> \<not> isl (strptime_ymd user_date)"
  then obtain u where "datetime (year dt) (month dt) (day dt) = Some dt"
    and "strptime_ymd user_date = Inr u"
    by (metis sum.collapse(2))
  then show "snd (compare_dates dt user_date days) \<noteq> msg_cannot_compare"
    by (rule compare_dates_parsed)
qed

theorem unparsable_input_cannot_compare_witness:
  "compare_times (asc ''17:30'') (asc ''abc'') (asc ''18:00'') 2 = (False, msg_cannot_compare)
   \<and> compare_times (asc ''17:30'') (asc ''17'') (asc ''18:00'') 2 = (False, msg_cannot_compare)
   \<and> compare_times (asc ''17:30'') (replicate 4301 0x30 @ asc '':00'') (asc ''18:00'') 2
       = (False, msg_cannot_compare)
   \<and> py_int (replicate 4301 0x30) = None
   \<and> compare_dates (Date 2025 9 5) (asc ''02/09/2025'') 1 = (False, msg_cannot_compare)
   \<and> snd (compare_times (asc ''17:30'') (asc ''17:00'') (asc ''18:00'') 2) \<noteq> msg_cannot_compare
   \<and> snd (compare_dates (Date 2025 9 5) (asc ''2025-9-2'') 1) \<noteq> msg_cannot_compare"
proof -
  have v: "datetime 2025 9 5 = Some (Date 2025 9 5)"
    by (simp add: datetime_def days_in_month_def)
  have l: "int_max_str_digits < 4301"
    by (simp add: int_max_str_digits_def)
  have n: "replicate 4301 (0x30 :: nat) \<noteq> []"
    by simp
  have a: "compare_times (asc ''17:30'') (asc ''abc'') (asc ''18:00'') 2
      = (False, msg_cannot_compare)"
    using unparsable_input_cannot_compare [of "asc ''17:30''" "asc ''abc''" "asc ''18:00''" 2
        "asc ''02/09/2025''" "Date 2025 9 5" 1 "asc ''17''" 1050 1020 1080]
    by (simp add: minutes_abc)
  have b: "compare_times (asc ''17:30'') (asc ''17'') (asc ''18:00'') 2
      = (False, msg_cannot_compare)"
    using unparsable_input_cannot_compare [of "asc ''17:30''" "asc ''17''" "asc ''18:00''" 2
        "asc ''02/09/2025''" "Date 2025 9 5" 1 "asc ''17''" 1050 1020 1080]
    by (simp add: minutes_17)
  have c: "compare_times (asc ''17:30'') (replicate 4301 0x30 @ asc '':00'') (asc ''18:00'') 2
      = (False, msg_cannot_compare)"
    using unparsable_input_cannot_compare [of "asc ''17:30''"
        "replicate 4301 0x30 @ asc '':00''" "asc ''18:00''" 2 "asc ''2025-9-2''"
        "Date 2025 9 5" 1 "asc ''17''" 1050 1020 1080]
    by (simp add: minutes_zeros)
  from unparsable_input_cannot_compare [of "asc ''17:30''" "asc ''17:00''" "asc ''18:00''" 2
      "asc ''2025-9-2''" "Date 2025 9 5" 1 "replicate 4301 0x30" 1050 1020 1080]
  have "(\<forall>c\<in>set (replicate 4301 0x30). 0x30 \<le> c \<and> c \<le> (0x39 :: nat))
      \<and> replicate 4301 (0x30 :: nat) \<noteq> []
      \<longrightarrow> (py_int (replicate 4301 0x30) = None)
          = (int_max_str_digits < length (replicate 4301 (0x30 :: nat)))"
    by blast
  with l n have d: "py_int (replicate 4301 0x30) = None"
    by simp
  have e: "compare_dates (Date 2025 9 5) (asc ''02/09/2025'') 1 = (False, msg_cannot_compare)"
    using unparsable_input_cannot_compare [of "asc ''17:30''" "asc ''17:00''" "asc ''18:00''" 2
        "asc ''02/09/2025''" "Date 2025 9 5" 1 "asc ''17''" 1050 1020 1080]
    by (simp add: strptime_slashes)
  have f: "snd (compare_times (asc ''17:30'') (asc ''17:00'') (asc ''18:00'') 2)
      \<noteq> msg_cannot_compare"
    and g: "snd (compare_dates (Date 2025 9 5) (asc ''2025-9-2'') 1) \<noteq> msg_cannot_compare"
    using unparsable_input_cannot_compare [of "asc ''17:30''" "asc ''17:00''" "asc ''18:00''" 2
        "asc ''2025-9-2''" "Date 2025 9 5" 1 "asc ''17''" 1050 1020 1080]
    by (simp_all add: minutes_1730 minutes_1700 minutes_1800 v strptime_2025_9_2)
  show ?thesis
    by (intro conjI a b c d e f g)
qed

text \<open>
  The claim as written fails on strings that are not of the required form and still
  parse: the start time \<open>17:00:00\<close> is not HH:MM and the date \<open>2025-9-2\<close> is not YYYY-MM-DD,
  yet both comparators report a match, not "could not compare".
\<close>

theorem malformed_but_compared_counterexample:
  "compare_times (asc ''17:30'') (asc ''17:00:00'') (asc ''18:00'') 2 = (True, msg_time_in_range)
   \<and> compare_dates (Date 2025 9 2) (asc ''2025-9-2'') 1 = (True, msg_date_same)"
  by (simp add: compare_times_parsed [OF minutes_1730 minutes_170000 minutes_1800]
      compare_dates_def compare_dates_try_def strptime_2025_9_2 Let_def)

section \<open>How the steps of the verification change the result\<close>

lemma demo_location_fields:
  assumes "demo_location W r0 addr = Inr (r, msg)"
  shows "is_valid_source r = is_valid_source r0 \<and> source_name r = source_name r0
    \<and> date_match r = date_match r0 \<and> time_match r = time_match r0 \<and> raw_text r = raw_text r0"
  using assms
  by (auto simp: demo_location_def Let_def split: prod.splits sum.splits if_splits)

lemma demo_location_fallback:
  assumes "fst (geocode_address W 0 addr) = (PyInt 0, PyInt 0, [])"
  shows "demo_location W r0 addr = Inr (r0\<lparr>location_match := True\<rparr>, msg_demo_fallback addr)"
  using assms
  by (auto simp: demo_location_def Let_def split: prod.splits)

lemma demo_confidence_fields:
  "is_valid_source (demo_confidence r) = is_valid_source r"
  "source_name (demo_confidence r) = source_name r"
  "date_match (demo_confidence r) = date_match r"
  "time_match (demo_confidence r) = time_match r"
  "location_match (demo_confidence r) = location_match r"
  "raw_text (demo_confidence r) = raw_text r"
  "confidence (demo_confidence r) = min 100 (30 + (if date_match r then 30 else 0)
      + (if time_match r then 20 else 0) + (if location_match r then 20 else 0))"
  by (simp_all add: demo_confidence_def Let_def)

lemma demo_fields:
  assumes "verify_report_demo W r0 user_date us ue addr = Inr r"
  shows "is_valid_source r \<and> source_name r = najm \<and> date_match r \<and> time_match r
         \<and> raw_text r = raw_text r0
         \<and> confidence r = (if location_match r then 100 else 80)"
proof -
  let ?r1 = "r0\<lparr>is_valid_source := True, source_name := najm, date_match := True,
                 time_match := True\<rparr>"
  from assms obtain r2 msg where loc: "demo_location W ?r1 addr = Inr (r2, msg)"
    and r: "r = (demo_confidence r2)\<lparr>matches :=
                          [''source'' \<mapsto> msg_source_ok (source_name (demo_confidence r2)),
                           ''date'' \<mapsto> prefix_date @ user_date @ suffix_matches,
                           ''time'' \<mapsto> prefix_time @ us @ asc '' - ''
                                        @ ue @ suffix_matches,
                           ''location'' \<mapsto> msg]\<rparr>"
    by (auto simp: verify_report_demo_def Let_def split: sum.splits prod.splits)
  from demo_location_fields [OF loc] show ?thesis
    unfolding r by (simp add: demo_confidence_fields)
qed

lemma verify_source_fields:
  "is_valid_source (verify_source r text) = fst (detect_report_source text)"
  "source_name (verify_source r text) = snd (detect_report_source text)"
  "date_match (verify_source r text) = date_match r"
  "time_match (verify_source r text) = time_match r"
  "location_match (verify_source r text) = location_match r"
  "raw_text (verify_source r text) = raw_text r"
  by (simp_all add: verify_source_def Let_def split: prod.splits)

lemma verify_date_fields:
  "is_valid_source (verify_date r text ud) = is_valid_source r"
  "source_name (verify_date r text ud) = source_name r"
  "extracted_date (verify_date r text ud) = extract_date_from_text text"
  "date_match (verify_date r text ud) =
     (case extract_date_from_text text of
        None \<Rightarrow> date_match r
      | Some dt \<Rightarrow> fst (compare_dates dt ud 1))"
  "time_match (verify_date r text ud) = time_match r"
  "location_match (verify_date r text ud) = location_match r"
  "raw_text (verify_date r text ud) = raw_text r"
  by (simp_all add: verify_date_def Let_def split: prod.splits option.splits)

lemma verify_time_fields:
  "is_valid_source (verify_time r text us ue) = is_valid_source r"
  "source_name (verify_time r text us ue) = source_name r"
  "extracted_date (verify_time r text us ue) = extracted_date r"
  "date_match (verify_time r text us ue) = date_match r"
  "extracted_time (verify_time r text us ue) = extract_time_from_text text"
  "time_match (verify_time r text us ue) =
     (case extract_time_from_text text of
        None \<Rightarrow> time_match r
      | Some t \<Rightarrow> if t = [] then time_match r else fst (compare_times t us ue 2))"
  "location_match (verify_time r text us ue) = location_match r"
  "raw_text (verify_time r text us ue) = raw_text r"
  by (simp_all add: verify_time_def Let_def split: prod.splits option.splits)

lemma verify_location_fields:
  assumes "verify_location W r0 text addr = Inr r"
  shows "is_valid_source r = is_valid_source r0 \<and> source_name r = source_name r0
    \<and> extracted_date r = extracted_date r0 \<and> date_match r = date_match r0
    \<and> extracted_time r = extracted_time r0 \<and> time_match r = time_match r0
    \<and> raw_text r = raw_text r0"
  using assms
  by (auto simp: verify_location_def Let_def split: prod.splits sum.splits if_splits)

lemma calculate_confidence_fields:
  "is_valid_source (calculate_confidence r) = is_valid_source r"
  "source_name (calculate_confidence r) = source_name r"
  "extracted_date (calculate_confidence r) = extracted_date r"
  "date_match (calculate_confidence r) = date_match r"
  "extracted_time (calculate_confidence r) = extracted_time r"
  "time_match (calculate_confidence r) = time_match r"
  "location_match (calculate_confidence r) = location_match r"
  "raw_text (calculate_confidence r) = raw_text r"
  "confidence (calculate_confidence r) = (if is_valid_source r then 30 else 0)
      + (if date_match r then 30 else 0)
      + (if time_match r then 20 else 0) + (if location_match r then 20 else 0)"
  by (simp_all add: calculate_confidence_def Let_def)

lemma scored_fields:
  assumes "verify_report_scored W r0 text user_date us ue addr = Inr r"
  shows "is_valid_source r = fst (detect_report_source text)
         \<and> source_name r = snd (detect_report_source text)
         \<and> extracted_date r = extract_date_from_text text
         \<and> date_match r = (case extract_date_from_text text of
                              None \<Rightarrow> date_match r0
                            | Some dt \<Rightarrow> fst (compare_dates dt user_date 1))
         \<and> extracted_time r = extract_time_from_text text
         \<and> time_match r = (case extract_time_from_text text of
                              None \<Rightarrow> time_match r0
                            | Some t \<Rightarrow> if t = [] then time_match r0 else fst (compare_times t us ue 2))
         \<and> raw_text r = raw_text r0
         \<and> confidence r = (if is_valid_source r then 30 else 0) + (if date_match r then 30 else 0)
              + (if time_match r then 20 else 0) + (if location_match r then 20 else 0)"
proof -
  let ?r3 = "verify_time (verify_date (verify_source r0 text) text user_date) text us ue"
  from assms obtain r4 where loc: "verify_location W ?r3 text addr = Inr r4"
    and r: "r = calculate_confidence r4"
    by (auto simp: verify_report_scored_def Let_def split: sum.splits)
  from verify_location_fields [OF loc] show ?thesis
    unfolding r
    by (simp add: calculate_confidence_fields verify_time_fields verify_date_fields
        verify_source_fields split: option.splits)
qed

section \<open>The verification returns unless the distance computation raises\<close>

lemma distance_returns:
  assumes "\<forall>x. f_sin W x \<noteq> None \<and> f_cos W x \<noteq> None \<and> f_sqrt W x \<noteq> None"
  shows "\<exists>d. calculate_distance_km W a b c d' = Inr d"
proof -
  have s: "\<exists>y. f_sin W x = Some y" and c: "\<exists>y. f_cos W x = Some y"
    and q: "\<exists>y. f_sqrt W x = Some y" for x
    using assms by auto
  obtain s1 where s1: "f_sin W (f_div W (f_radians W (f_sub W c a)) (f_of_int W 2)) = Some s1"
    using s by blast
  obtain c1 where c1: "f_cos W (f_radians W a) = Some c1"
    using c by blast
  obtain c2 where c2: "f_cos W (f_radians W c) = Some c2"
    using c by blast
  obtain s2 where s2: "f_sin W (f_div W (f_radians W (f_sub W d' b)) (f_of_int W 2)) = Some s2"
    using s by blast
  obtain q1 where q1:
    "f_sqrt W (f_add W (f_square W s1) (f_mul W (f_mul W c1 c2) (f_square W s2))) = Some q1"
    using q by blast
  obtain q2 where q2:
    "f_sqrt W (f_sub W (f_of_int W 1)
        (f_add W (f_square W s1) (f_mul W (f_mul W c1 c2) (f_square W s2)))) = Some q2"
    using q by blast
  show ?thesis
    by (simp add: calculate_distance_km_def Let_def s1 c1 c2 s2 q1 q2)
qed

lemma both_points_returns:
  assumes "\<forall>x. f_sin W x \<noteq> None \<and> f_cos W x \<noteq> None \<and> f_sqrt W x \<noteq> None"
  shows "\<not> isl (compare_both_points W k city a b c d)"
proof -
  obtain km where "calculate_distance_km W a b (num_f W c) (num_f W d) = Inr km"
    using distance_returns [OF assms] by blast
  then show ?thesis
    by (simp add: compare_both_points_def Let_def split: prod.splits)
qed

lemma city_point_returns:
  assumes "\<forall>x. f_sin W x \<noteq> None \<and> f_cos W x \<noteq> None \<and> f_sqrt W x \<noteq> None"
  shows "\<not> isl (compare_city_point W k city c d)"
proof -
  have "\<exists>km. calculate_distance_km W a b (num_f W c) (num_f W d) = Inr km" for a b
    using distance_returns [OF assms] by blast
  then have "calculate_distance_km W a b (num_f W c) (num_f W d) \<noteq> Inl e" for a b e
    by (metis sum.distinct(1))
  then show ?thesis
    by (simp add: compare_city_point_def Let_def split: prod.splits sum.splits)
qed

lemma compare_locations_returns:
  assumes "\<forall>x. f_sin W x \<noteq> None \<and> f_cos W x \<noteq> None \<and> f_sqrt W x \<noteq> None"
  shows "\<not> isl (compare_locations W k city coords addr)"
proof (cases "city = [] \<and> coords = []")
  case True
  then show ?thesis
    by (simp add: compare_locations_def)
next
  case False
  obtain rl rg where rep:
    "(if coords \<noteq> [] then parse_coords W coords else (f_lit W 0 1, f_lit W 0 1)) = (rl, rg)"
    by fastforce
  obtain ul ug un k' where usr: "geocode_user W k addr = ((ul, ug, un), k')"
    by (cases "geocode_user W k addr") auto
  note r1 = both_points_returns [OF assms, of k' city rl rg ul ug]
  obtain r2 k2 where r2: "compare_city_point W k' city ul ug = Inr (r2, k2)"
    using city_point_returns [OF assms, of k' city ul ug]
    by (cases "compare_city_point W k' city ul ug") auto
  have "compare_locations W k city coords addr =
    (if \<not> f_eq0 W rl \<and> \<not> f_eq0 W rg \<and> nonzero W ul \<and> nonzero W ug
     then compare_both_points W k' city rl rg ul ug
     else if \<not> f_eq0 W rl \<and> \<not> f_eq0 W rg
     then Inr (compare_report_point W k' rl rg)
     else
       (case (if city \<noteq> [] \<and> nonzero W ul
              then compare_city_point W k' city ul ug
              else Inr (None, k')) of
          Inl e \<Rightarrow> Inl e
        | Inr (Some r, k'') \<Rightarrow> Inr (r, k'')
        | Inr (None, k'') \<Rightarrow>
            if city \<noteq> [] then Inr ((True, msg_city city), k'')
            else Inr ((False, msg_unverified), k'')))"
    unfolding compare_locations_def if_not_P [OF False] rep usr by (simp add: Let_def)
  then show ?thesis
    by (cases r2) (simp_all add: r1 r2)
qed

lemma demo_location_returns:
  assumes "\<forall>x. f_sin W x \<noteq> None \<and> f_cos W x \<noteq> None \<and> f_sqrt W x \<noteq> None"
  shows "\<not> isl (demo_location W r addr)"
proof -
  have d: "calculate_distance_km W a b c d' \<noteq> Inl e" for a b c d' e
    using distance_returns [OF assms, of a b c d'] by auto
  show ?thesis
    by (simp add: demo_location_def Let_def d split: prod.splits sum.splits)
qed

lemma verify_report_returns:
  assumes "\<forall>x. f_sin W x \<noteq> None \<and> f_cos W x \<noteq> None \<and> f_sqrt W x \<noteq> None"
  shows "\<exists>r. verify_report W p ud us ue addr = Inr r"
proof -
  have c: "compare_locations W k city coords a \<noteq> Inl e" for k city coords a e
    using compare_locations_returns [OF assms, of k city coords a] by auto
  have l: "demo_location W r a \<noteq> Inl e" for r a e
    using demo_location_returns [OF assms, of r a] by auto
  have "\<not> isl (verify_report W p ud us ue addr)"
    by (simp add: verify_report_def verify_report_demo_def verify_report_scored_def
        verify_location_def Let_def c l split: prod.splits sum.splits)
  then show ?thesis
    by (cases "verify_report W p ud us ue addr") auto
qed

section \<open>Source detection: counting and falling back\<close>

lemma score_count:
  "foldl (\<lambda>score pattern. if found pattern text then score + 1 else score) n ps
     = n + length (filter (\<lambda>pattern. found pattern text) ps)"
  by (induction ps arbitrary: n) simp_all

lemma najm_score_count:
  "najm_score text = length (filter (\<lambda>pattern. found pattern text) najm_patterns)"
  by (simp add: najm_score_def score_count)

lemma traffic_loop_ex:
  "traffic_loop ps text = (\<exists>pattern\<in>set ps. found pattern text)"
  by (induction ps) simp_all

lemma no_pattern_no_source:
  assumes "\<forall>pattern\<in>set (najm_patterns @ traffic_patterns). \<not> found pattern text"
  shows "detect_report_source text = (False, [])"
proof -
  have "filter (\<lambda>pattern. found pattern text) najm_patterns = []"
    using assms by (auto simp: filter_empty_conv)
  then have "najm_score text = 0"
    by (simp add: najm_score_count)
  moreover have "\<not> traffic_loop traffic_patterns text"
    using assms by (simp add: traffic_loop_ex)
  ultimately show ?thesis
    by (simp add: detect_report_source_def)
qed

section \<open>Extracted times are never empty\<close>

lemma hhmm_not_empty: "hhmm h m \<noteq> []"
  by (simp add: hhmm_def)

lemma time_of_groups_not_empty: "time_of_groups g = Some t \<Longrightarrow> t \<noteq> []"
  by (auto simp: time_of_groups_def Let_def hhmm_not_empty split: option.splits if_splits)

lemma time_loop_not_empty: "time_loop ps text = Some t \<Longrightarrow> t \<noteq> []"
  by (induction ps) (auto split: option.splits dest: time_of_groups_not_empty)

lemma extract_time_not_empty: "extract_time_from_text text = Some t \<Longrightarrow> t \<noteq> []"
  by (auto simp: extract_time_from_text_def hhmm_not_empty
      split: option.splits dest: time_loop_not_empty)

section \<open>The two paths of the verification\<close>

lemma verify_report_no_text:
  assumes "extract_text_from_pdf W p = []"
  shows "verify_report W p ud us ue addr = verify_report_demo W VerificationResult ud us ue addr"
  using assms by (simp add: verify_report_def Let_def VerificationResult_def)

lemma verify_report_text:
  assumes "extract_text_from_pdf W p \<noteq> []"
  shows "verify_report W p ud us ue addr =
    verify_report_scored W (VerificationResult\<lparr>raw_text := take 500 (extract_text_from_pdf W p)\<rparr>)
      (extract_text_from_pdf W p) ud us ue addr"
  using assms by (simp add: verify_report_def Let_def)

lemma bare_world_no_text: "extract_text_from_pdf bare_world p = []"
  by (simp add: extract_text_from_pdf_def bare_world_def ideal_world_def)

lemma page_world_text: "extract_text_from_pdf (page_world text) p = text"
  by (simp add: extract_text_from_pdf_def page_world_def ideal_world_def)

lemma ideal_world_total:
  "\<forall>x. f_sin (ideal_world lib pages search) x \<noteq> None
      \<and> f_cos (ideal_world lib pages search) x \<noteq> None
      \<and> f_sqrt (ideal_world lib pages search) x \<noteq> None"
  by (simp add: ideal_world_def)

lemma bare_world_geocode:
  "fst (geocode_address bare_world k addr) = (PyInt 0, PyInt 0, [])"
  by (simp add: geocode_address_def bare_world_def ideal_world_def)

lemma x_has_no_pattern:
  "\<forall>pattern\<in>set (najm_patterns @ traffic_patterns). \<not> found pattern (asc ''x'')"
  by (simp add: source_eval re_eval)

section \<open>Claims about the aggregation\<close>

text \<open>
  C1. Whenever \<^verbatim>\<open>verify_report\<close> returns a result, in demo mode as on the normal path,
  its confidence is \<open>30 * is_valid_source + 30 * date_match + 20 * time_match +
  20 * location_match\<close>, clamped to the range from 0 to 100; and it does return a result in
  every world in which the floating point functions of the distance computation do not
  raise.
\<close>

theorem confidence_weighted_sum:
  "(\<forall>r. verify_report W p ud us ue addr = Inr r \<longrightarrow>
        confidence r =
          min 100 (max 0 (30 * of_bool (is_valid_source r) + 30 * of_bool (date_match r)
                          + 20 * of_bool (time_match r) + 20 * of_bool (location_match r))))
   \<and> ((\<forall>x. f_sin W x \<noteq> None \<and> f_cos W x \<noteq> None \<and> f_sqrt W x \<noteq> None) \<longrightarrow>
        (\<exists>r. verify_report W p ud us ue addr = Inr r))"
proof (intro conjI allI impI)
  fix r
  assume r: "verify_report W p ud us ue addr = Inr r"
  show "confidence r =
          min 100 (max 0 (30 * of_bool (is_valid_source r) + 30 * of_bool (date_match r)
                          + 20 * of_bool (time_match r) + 20 * of_bool (location_match r)))"
  proof (cases "extract_text_from_pdf W p = []")
    case True
    with r have "verify_report_demo W VerificationResult ud us ue addr = Inr r"
      by (simp add: verify_report_no_text)
    from demo_fields [OF this] show ?thesis
      by simp
  next
    case False
    with r have "verify_report_scored W
        (VerificationResult\<lparr>raw_text := take 500 (extract_text_from_pdf W p)\<rparr>)
        (extract_text_from_pdf W p) ud us ue addr = Inr r"
      by (simp add: verify_report_text)
    from scored_fields [OF this] show ?thesis
      by simp
  qed
next
  assume "\<forall>x. f_sin W x \<noteq> None \<and> f_cos W x \<noteq> None \<and> f_sqrt W x \<noteq> None"
  then show "\<exists>r. verify_report W p ud us ue addr = Inr r"
    by (rule verify_report_returns)
qed

theorem confidence_weighted_sum_witness:
  "\<exists>r. verify_report bare_world [] (asc ''2025-09-02'') (asc ''17:00'') (asc ''18:00'')
          (asc ''RRRD2929'') = Inr r
      \<and> is_valid_source r \<and> date_match r \<and> time_match r \<and> location_match r
      \<and> confidence r = 100"
proof -
  let ?v = "verify_report bare_world [] (asc ''2025-09-02'') (asc ''17:00'') (asc ''18:00'')
          (asc ''RRRD2929'')"
  note c = confidence_weighted_sum [of bare_world "[]" "asc ''2025-09-02''" "asc ''17:00''"
      "asc ''18:00''" "asc ''RRRD2929''"]
  have "\<forall>x. f_sin bare_world x \<noteq> None \<and> f_cos bare_world x \<noteq> None \<and> f_sqrt bare_world x \<noteq> None"
    unfolding bare_world_def by (rule ideal_world_total)
  with c obtain r where r: "?v = Inr r"
    by blast
  then have d: "verify_report_demo bare_world VerificationResult (asc ''2025-09-02'')
      (asc ''17:00'') (asc ''18:00'') (asc ''RRRD2929'') = Inr r"
    by (simp add: verify_report_no_text bare_world_no_text)
  have "location_match r"
    using d demo_location_fallback [OF bare_world_geocode [of 0 "asc ''RRRD2929''"]]
    by (auto simp: verify_report_demo_def Let_def demo_confidence_fields)
  with demo_fields [OF d] c r show ?thesis
    by auto
qed

text \<open>
  C2. Demo mode is taken exactly when the extracted text is the empty string: a result of
  \<^verbatim>\<open>verify_report\<close> is the result of the demo branch if and only if the text is empty. With
  an empty text the source, the date and the time are asserted; with any other text the
  result is that of the scoring path, whose source, date and time fields are what the
  detector, the extractors and the comparators say about the text; and when the text is
  not empty and none of the source patterns is found in it, the source is invalid and its
  name is empty.
\<close>

theorem demo_mode_iff_no_text:
  assumes "verify_report W p ud us ue addr = Inr r"
  shows "(verify_report_demo W VerificationResult ud us ue addr = Inr r
            \<longleftrightarrow> extract_text_from_pdf W p = [])
    \<and> (extract_text_from_pdf W p = [] \<longrightarrow>
         is_valid_source r \<and> source_name r = najm \<and> date_match r \<and> time_match r)
    \<and> (extract_text_from_pdf W p \<noteq> [] \<longrightarrow>
         verify_report_scored W
           (VerificationResult\<lparr>raw_text := take 500 (extract_text_from_pdf W p)\<rparr>)
           (extract_text_from_pdf W p) ud us ue addr = Inr r
         \<and> (is_valid_source r, source_name r) = detect_report_source (extract_text_from_pdf W p)
         \<and> date_match r =
             (case extract_date_from_text (extract_text_from_pdf W p) of
                None \<Rightarrow> False
              | Some dt \<Rightarrow> fst (compare_dates dt ud 1))
         \<and> time_match r =
             (case extract_time_from_text (extract_text_from_pdf W p) of
                None \<Rightarrow> False
              | Some t \<Rightarrow> fst (compare_times t us ue 2)))
    \<and> (extract_text_from_pdf W p \<noteq> []
         \<and> (\<forall>pattern\<in>set (najm_patterns @ traffic_patterns).
               \<not> found pattern (extract_text_from_pdf W p)) \<longrightarrow>
         \<not> is_valid_source r \<and> source_name r = [])"
proof (cases "extract_text_from_pdf W p = []")
  case True
  with assms have d: "verify_report_demo W VerificationResult ud us ue addr = Inr r"
    by (simp add: verify_report_no_text)
  from demo_fields [OF d] d True show ?thesis
    by simp
next
  case False
  let ?text = "extract_text_from_pdf W p"
  let ?r0 = "VerificationResult\<lparr>raw_text := take 500 ?text\<rparr>"
  from assms False have s: "verify_report_scored W ?r0 ?text ud us ue addr = Inr r"
    by (simp add: verify_report_text)
  note f = scored_fields [OF s]
  have raw: "raw_text r \<noteq> []"
    using f False by simp
  have not_demo: "verify_report_demo W VerificationResult ud us ue addr \<noteq> Inr r"
  proof
    assume "verify_report_demo W VerificationResult ud us ue addr = Inr r"
    from demo_fields [OF this] have "raw_text r = []"
      by (simp add: VerificationResult_def)
    with raw show False
      by simp
  qed
  have time: "time_match r =
      (case extract_time_from_text ?text of
         None \<Rightarrow> False
       | Some t \<Rightarrow> fst (compare_times t us ue 2))"
    using f by (auto simp: VerificationResult_def split: option.splits
        dest: extract_time_not_empty)
  have date: "date_match r =
      (case extract_date_from_text ?text of
         None \<Rightarrow> False
       | Some dt \<Rightarrow> fst (compare_dates dt ud 1))"
    using f by (auto simp: VerificationResult_def split: option.splits)
  have src: "(is_valid_source r, source_name r) = detect_report_source ?text"
    using f by simp
  have none: "\<not> is_valid_source r \<and> source_name r = []"
    if "\<forall>pattern\<in>set (najm_patterns @ traffic_patterns). \<not> found pattern ?text"
    using no_pattern_no_source [OF that] f by simp
  from False s not_demo time date src none show ?thesis
    by blast
qed

theorem demo_mode_iff_no_text_witness:
  "(\<exists>r. verify_report bare_world (asc ''report.pdf'') (asc ''2025-09-02'') (asc ''17:00'')
          (asc ''18:00'') (asc ''RRRD2929'') = Inr r
       \<and> is_valid_source r \<and> source_name r = najm \<and> date_match r \<and> time_match r)
   \<and> (\<exists>r. verify_report (page_world (asc ''x'')) (asc ''report.pdf'') (asc ''2025-09-02'')
          (asc ''17:00'') (asc ''18:00'') (asc ''RRRD2929'') = Inr r
       \<and> \<not> is_valid_source r \<and> source_name r = [])"
proof -
  obtain r0 where r0: "verify_report bare_world (asc ''report.pdf'') (asc ''2025-09-02'')
      (asc ''17:00'') (asc ''18:00'') (asc ''RRRD2929'') = Inr r0"
    using verify_report_returns [of bare_world] ideal_world_total
    unfolding bare_world_def by blast
  obtain r1 where r1: "verify_report (page_world (asc ''x'')) (asc ''report.pdf'')
      (asc ''2025-09-02'') (asc ''17:00'') (asc ''18:00'') (asc ''RRRD2929'') = Inr r1"
    using verify_report_returns [of "page_world (asc ''x'')"] ideal_world_total
    unfolding page_world_def by blast
  have ne: "asc ''x'' \<noteq> []"
    by (simp add: asc_def)
  from demo_mode_iff_no_text [OF r0]
  have "is_valid_source r0 \<and> source_name r0 = najm \<and> date_match r0 \<and> time_match r0"
    by (simp add: bare_world_no_text)
  moreover from demo_mode_iff_no_text [OF r1] x_has_no_pattern ne
  have "\<not> is_valid_source r1 \<and> source_name r1 = []"
    unfolding page_world_text by blast
  ultimately show ?thesis
    using r0 r1 by blast
qed

text \<open>
  C9. In demo mode, when geocoding the user's address fails and \<^verbatim>\<open>geocode_address\<close> gives
  \<^verbatim>\<open>(0, 0, "")\<close>, the verification returns, whatever the distance function of the world
  does, a result with \<open>location_match\<close> true and confidence 100, which the caller approves
  automatically; and no result of demo mode has a confidence below 80.
\<close>

theorem demo_mode_geocode_failure:
  assumes "extract_text_from_pdf W p = []"
  shows "(fst (geocode_address W 0 addr) = (PyInt 0, PyInt 0, []) \<longrightarrow>
            (\<exists>r. verify_report W p ud us ue addr = Inr r \<and> location_match r
                 \<and> confidence r = 100 \<and> decide (confidence r) = Approved))
    \<and> (\<forall>r. verify_report W p ud us ue addr = Inr r \<longrightarrow> 80 \<le> confidence r)"
proof (intro conjI allI impI)
  assume g: "fst (geocode_address W 0 addr) = (PyInt 0, PyInt 0, [])"
  let ?r1 = "VerificationResult\<lparr>is_valid_source := True, source_name := najm,
      date_match := True, time_match := True\<rparr>"
  have "\<exists>r. verify_report_demo W VerificationResult ud us ue addr = Inr r \<and> location_match r"
    using demo_location_fallback [OF g, of ?r1]
    by (simp add: verify_report_demo_def Let_def demo_confidence_fields)
  then obtain r where r: "verify_report_demo W VerificationResult ud us ue addr = Inr r"
    and l: "location_match r"
    by blast
  from demo_fields [OF r] l have "confidence r = 100"
    by simp
  with r l assms show "\<exists>r. verify_report W p ud us ue addr = Inr r \<and> location_match r
      \<and> confidence r = 100 \<and> decide (confidence r) = Approved"
    by (auto simp: verify_report_no_text decide_def)
next
  fix r
  assume "verify_report W p ud us ue addr = Inr r"
  with assms have "verify_report_demo W VerificationResult ud us ue addr = Inr r"
    by (simp add: verify_report_no_text)
  from demo_fields [OF this] show "80 \<le> confidence r"
    by (simp split: if_splits)
qed

theorem demo_mode_geocode_failure_witness:
  "\<exists>r. verify_report bare_world (asc ''report.pdf'') (asc ''2025-09-02'') (asc ''17:00'')
          (asc ''18:00'') (asc ''RRRD2929'') = Inr r
       \<and> location_match r \<and> confidence r = 100 \<and> decide (confidence r) = Approved
       \<and> 80 \<le> confidence r"
  using demo_mode_geocode_failure [OF bare_world_no_text, of "asc ''RRRD2929''"
      "asc ''report.pdf''" "asc ''2025-09-02''" "asc ''17:00''" "asc ''18:00''"]
    bare_world_geocode [of 0 "asc ''RRRD2929''"]
  by auto

text \<open>
  C4. The source detector answers with the primary label when at least two patterns of
  the primary vocabulary are found in the text; otherwise with the secondary label when
  some pattern of the secondary vocabulary is found; otherwise with the primary label
  when exactly one primary pattern is found; otherwise with no source.
\<close>

theorem detect_report_source_cases:
  "detect_report_source s =
     (let n = length (filter (\<lambda>pattern. found pattern s) najm_patterns) in
      if 2 \<le> n then (True, najm)
      else if \<exists>pattern\<in>set traffic_patterns. found pattern s then (True, traffic)
      else if n = 1 then (True, najm)
      else (False, []))"
  by (auto simp: detect_report_source_def najm_score_count traffic_loop_ex Let_def)

theorem detect_report_source_cases_witness:
  "detect_report_source (asc ''najm Final Report'') = (True, najm)
   \<and> detect_report_source (asc ''najm traffic'') = (True, traffic)
   \<and> detect_report_source (asc ''najm'') = (True, najm)
   \<and> detect_report_source (asc ''x'') = (False, [])"
  using detect_report_source_cases [of "asc ''najm Final Report''"]
    detect_report_source_cases [of "asc ''najm traffic''"]
    detect_report_source_cases [of "asc ''najm''"]
    detect_report_source_cases [of "asc ''x''"]
  by (simp add: source_eval re_eval)

section \<open>Searching for the national address token\<close>

lemma takeWhile_at_least:
  "(n \<le> length (takeWhile P s)) = (n \<le> length s \<and> list_all P (take n s))"
proof (induction s arbitrary: n)
  case Nil
  then show ?case by simp
next
  case (Cons c s)
  then show ?case by (cases n) auto
qed

lemma address_letter_class: "cc_match True (Rng 0x41 0x5A) c = address_letter c"
proof -
  have "list_ex (\<lambda>p. fold_case c = fold_case p) [0x41..<Suc 0x5A]
      = (\<exists>p. 0x41 \<le> p \<and> p \<le> 0x5A \<and> fold_case c = fold_case p)"
    unfolding list_ex_iff set_upt by (auto simp: less_Suc_eq_le)
  also have "\<dots> = (0x61 \<le> fold_case c \<and> fold_case c \<le> 0x7A)"
  proof
    assume "\<exists>p. 0x41 \<le> p \<and> p \<le> 0x5A \<and> fold_case c = fold_case p"
    then obtain p where p: "0x41 \<le> p" "p \<le> 0x5A" and c: "fold_case c = fold_case p"
      by blast
    from p have "fold_case p = p + 32"
      by (simp add: fold_case_def)
    with p c show "0x61 \<le> fold_case c \<and> fold_case c \<le> 0x7A"
      by arith
  next
    assume a: "0x61 \<le> fold_case c \<and> fold_case c \<le> 0x7A"
    define p where "p = fold_case c - 32"
    from a have p: "0x41 \<le> p \<and> p \<le> 0x5A"
      unfolding p_def by arith
    then have "fold_case p = p + 32"
      by (simp add: fold_case_def)
    with a have "fold_case c = fold_case p"
      unfolding p_def by arith
    with p show "\<exists>p. 0x41 \<le> p \<and> p \<le> 0x5A \<and> fold_case c = fold_case p"
      by blast
  qed
  also have "\<dots> = address_letter c"
    by (auto simp: fold_case_def address_letter_def split: if_splits)
  finally show ?thesis
    by simp
qed


lemma rep_exactly:
  "rep_counts ic k n (Some n) True s
     = (if n \<le> length s \<and> list_all (cc_match ic k) (take n s) then [n] else [])"
proof (cases "n \<le> length (takeWhile (cc_match ic k) s)")
  case True
  then have "min n (length (takeWhile (cc_match ic k) s)) = n"
    by simp
  with True show ?thesis
    by (simp add: rep_counts_def Let_def takeWhile_at_least [symmetric])
next
  case False
  then have "min n (length (takeWhile (cc_match ic k) s)) < n"
    by simp
  with False show ?thesis
    by (simp add: rep_counts_def Let_def takeWhile_at_least [symmetric])
qed

lemma token_split:
  assumes "8 \<le> length s"
  shows "is_address_token (take 8 s)
    = (list_all address_letter (take 4 s) \<and> list_all is_digit (take 4 (drop 4 s)))"
proof -
  have "take 4 (take 8 s) = take 4 s"
    by simp
  moreover have "drop 4 (take 8 s) = take 4 (drop 4 s)"
    by (simp add: drop_take)
  ultimately show ?thesis
    using assms by (simp add: is_address_token_def)
qed

lemma rmatch_address:
  "rmatch True address_pattern s [] =
     (if 8 \<le> length s \<and> is_address_token (take 8 s) then [(drop 8 s, [(1, take 8 s)])]
      else [])"
proof -
  have d: "cc_match True Digit = is_digit"
    by (rule ext) simp
  have l: "cc_match True (Rng 0x41 0x5A) = address_letter"
    by (rule ext) (rule address_letter_class)
  have m: "rmatch True address_pattern s [] =
     (if 4 \<le> length s \<and> list_all address_letter (take 4 s)
         \<and> 4 \<le> length (drop 4 s) \<and> list_all is_digit (take 4 (drop 4 s))
      then [(drop 4 (drop 4 s), [(1, take (length s - length (drop 4 (drop 4 s))) s)])]
      else [])"
    by (simp add: address_pattern_def seqs_def rep_exactly d l)
  show ?thesis
  proof (cases "8 \<le> length s")
    case True
    then have "4 \<le> length s" and "4 \<le> length (drop 4 s)"
      and "drop 4 (drop 4 s) = drop 8 s" and "length s - length (drop 8 s) = 8"
      by simp_all
    with True show ?thesis
      unfolding m by (simp only: token_split [OF True] if_True simp_thms)
  next
    case False
    then have "\<not> (4 \<le> length s \<and> 4 \<le> length (drop 4 s))"
      unfolding length_drop by arith
    with False show ?thesis
      unfolding m by simp
  qed
qed

lemma search_address:
  "re_search True address_pattern s = map_option (\<lambda>t. [(1, t)]) (first_token s)"
  by (induction s) (simp_all add: rmatch_address)

lemma token_at_head:
  assumes "is_address_token tok"
  shows "8 \<le> length (tok @ post) \<and> take 8 (tok @ post) = tok"
  using assms by (simp add: is_address_token_def)

lemma first_token_found:
  assumes "is_address_token tok"
  shows "\<exists>t pre' post'. first_token (pre @ tok @ post) = Some t \<and> is_address_token t
           \<and> pre @ tok @ post = pre' @ t @ post' \<and> length pre' \<le> length pre"
proof (induction pre)
  case Nil
  from token_at_head [OF assms, of post] assms
  have "first_token (tok @ post) = Some tok"
    by (cases "tok @ post") auto
  with assms show ?case
    by (metis append_Nil le_refl)
next
  case (Cons c pre)
  then obtain t pre' post' where t: "first_token (pre @ tok @ post) = Some t"
    "is_address_token t" "pre @ tok @ post = pre' @ t @ post'" "length pre' \<le> length pre"
    by blast
  show ?case
  proof (cases "8 \<le> length (c # pre @ tok @ post)
      \<and> is_address_token (take 8 (c # pre @ tok @ post))")
    case True
    have "first_token ((c # pre) @ tok @ post) = Some (take 8 (c # pre @ tok @ post))"
      unfolding append_Cons first_token.simps(2) if_P [OF True] ..
    moreover have "(c # pre) @ tok @ post
        = [] @ take 8 (c # pre @ tok @ post) @ drop 8 (c # pre @ tok @ post)"
      by (simp only: append_Nil append_Cons append_take_drop_id)
    ultimately show ?thesis
      using True by (metis list.size(3) zero_le)
  next
    case False
    have "first_token ((c # pre) @ tok @ post) = first_token (pre @ tok @ post)"
      unfolding append_Cons first_token.simps(2) if_not_P [OF False] ..
    then have "first_token ((c # pre) @ tok @ post) = Some t"
      using t by simp
    moreover have "(c # pre) @ tok @ post = (c # pre') @ t @ post'"
      using t by simp
    ultimately show ?thesis
      using t by (metis length_Cons Suc_le_mono)
  qed
qed

lemma location_with_token:
  assumes "first_token s = Some t"
  shows "fst (extract_location_from_text s) = map upper_cp t"
  using assms
  by (simp add: extract_location_from_text_def Let_def search_address grp_def)

section \<open>Claims about the field extractors\<close>

text \<open>
  C7, as the code has it. For every text that contains a national address token (four
  letters immediately followed by four digits), the city slot of the location extractor's
  result is the token that starts first in the text, converted to upper case, whatever
  else the text says about the location.
\<close>

theorem address_token_is_city:
  assumes "is_address_token tok"
  shows "\<exists>t pre' post'. is_address_token t \<and> pre @ tok @ post = pre' @ t @ post'
           \<and> length pre' \<le> length pre
           \<and> fst (extract_location_from_text (pre @ tok @ post)) = map upper_cp t"
proof -
  from first_token_found [OF assms, of pre post]
  obtain t pre' post' where "first_token (pre @ tok @ post) = Some t" "is_address_token t"
    "pre @ tok @ post = pre' @ t @ post'" "length pre' \<le> length pre"
    by blast
  with location_with_token show ?thesis
    by blast
qed

lemma token_abcd1234: "is_address_token (asc ''abcd1234'')"
  by (simp add: is_address_token_def address_letter_def is_digit_def decimal_value_def
      nd_zeros_def asc_def)

theorem address_token_is_city_witness:
  "\<exists>t pre' post'. is_address_token t
     \<and> asc ''at '' @ asc ''abcd1234'' @ asc '' st'' = pre' @ t @ post'
     \<and> length pre' \<le> length (asc ''at '')
     \<and> fst (extract_location_from_text (asc ''at '' @ asc ''abcd1234'' @ asc '' st''))
         = map upper_cp t"
  using address_token_is_city [OF token_abcd1234, of "asc ''at ''" "asc '' st''"]
  by simp

text \<open>
  The claim as written fails on a token in lower case: for the text \<open>abcd1234\<close> the city
  slot is \<open>ABCD1234\<close>, not the token itself.
\<close>

lemma location_abcd1234:
  "extract_location_from_text (asc ''abcd1234'') = (asc ''ABCD1234'', [])"
  by (simp add: extract_location_from_text_def re_eval int_eval pat_eval)

theorem lower_case_token_counterexample:
  "fst (extract_location_from_text (asc ''abcd1234'')) \<noteq> asc ''abcd1234''"
  unfolding location_abcd1234 by (simp add: asc_def)

text \<open>
  C6. The labelled pattern was meant to accept the names of the gazetteer only, but it is
  a character class of their letters: for the line "place of the accident: King Fahd
  road" it puts the word "road", which is spelled with letters of the class, in the city
  slot, and that word is no member of the gazetteer.
\<close>

theorem labelled_city_outside_gazetteer:
  "extract_location_from_text
     (label_accident_place @ asc '': ''
      @ [0x637, 0x631, 0x64A, 0x642, 0x20, 0x627, 0x644, 0x645, 0x644, 0x643, 0x20, 0x641,
         0x647, 0x62F])
     = ([0x637, 0x631, 0x64A, 0x642], [])
   \<and> [0x637, 0x631, 0x64A, 0x642] \<notin> set areas"
  by (simp add: extract_location_from_text_def re_eval int_eval pat_eval)

text \<open>
  C10. For the text \<open>17:34\<close> followed by a blank and the short evening marker, the time
  extractor adds twelve hours to a time that is in 24-hour form already and returns
  \<open>29:34\<close>, whose hour field, 29, is larger than 23.
\<close>

theorem evening_marker_hour_29:
  "extract_time_from_text (asc ''17:34 '' @ pm_short) = Some (hhmm 29 34)
   \<and> hhmm 29 34 = asc ''29:34'' \<and> hm_minutes (asc ''29:34'') = Inr (29 * 60 + 34)
   \<and> (23 :: int) < 29"
  by (simp add: extract_time_from_text_def re_eval int_eval fmt_eval pat_eval hm_minutes_def)

section \<open>The conversions of the extractors cannot fail\<close>

text \<open>
  A match consumes a prefix of the text; for a pattern that is \<open>digits_only\<close> the prefix
  consists of decimal digits, for one that is \<open>never_empty\<close> it is not empty, and it is no
  longer than the \<open>width\<close> of the pattern.
\<close>

lemma digit_class_match:
  assumes "digit_class k" and "cc_match ic k c"
  shows "is_digit c"
proof (cases k)
  case (Chr p)
  with assms have p: "0x30 \<le> p" "p \<le> 0x39"
    by simp_all
  then have "fold_case p = p"
    by (simp add: fold_case_def)
  moreover have "fold_case c = p \<Longrightarrow> c = p"
    using p by (auto simp: fold_case_def split: if_splits)
  ultimately have "c = p"
    using assms Chr by (auto split: if_splits)
  with decimal_value_ascii [OF p] show ?thesis
    by (simp add: is_digit_def)
qed (use assms in simp_all)

lemma rep_counts_run:
  "n \<in> set (rep_counts ic k lo hi greedy s)
    \<Longrightarrow> lo \<le> n \<and> n \<le> length s \<and> list_all (cc_match ic k) (take n s)"
proof -
  assume a: "n \<in> set (rep_counts ic k lo hi greedy s)"
  let ?run = "length (takeWhile (cc_match ic k) s)"
  from a have "lo \<le> n \<and> n \<le> ?run"
    by (auto simp: rep_counts_def Let_def split: option.splits if_splits)
  then show ?thesis
    by (simp add: takeWhile_at_least)
qed

lemma rmatch_consumes:
  "m \<in> set (rmatch ic r s g)
    \<Longrightarrow> \<exists>w. s = w @ fst m \<and> (digits_only r \<longrightarrow> list_all is_digit w)
            \<and> (never_empty r \<longrightarrow> w \<noteq> [])"
proof (induction r arbitrary: s g m)
  case Eps
  then show ?case by simp
next
  case (C k)
  from C.prems show ?case
    by (cases s) (auto split: if_splits dest: digit_class_match)
next
  case (Rep k lo hi greedy)
  from Rep.prems obtain n where n: "n \<in> set (rep_counts ic k lo hi greedy s)" and m: "fst m = drop n s"
    by auto
  from rep_counts_run [OF n] have r: "lo \<le> n" "n \<le> length s"
    "list_all (cc_match ic k) (take n s)"
    by simp_all
  have "s = take n s @ fst m"
    by (simp add: m)
  moreover have "digit_class k \<longrightarrow> list_all is_digit (take n s)"
    using r(3) by (auto simp: list_all_iff dest: digit_class_match)
  moreover have "1 \<le> lo \<longrightarrow> take n s \<noteq> []"
    using r by auto
  ultimately show ?case
    by (metis digits_only.simps(3) never_empty.simps(3))
next
  case (Seq a b)
  from Seq.prems obtain m1 where m1: "m1 \<in> set (rmatch ic a s g)"
    and m2: "m \<in> set (rmatch ic b (fst m1) (snd m1))"
    by auto
  from Seq.IH(1) [OF m1] obtain w1 where w1: "s = w1 @ fst m1"
    "digits_only a \<longrightarrow> list_all is_digit w1" "never_empty a \<longrightarrow> w1 \<noteq> []"
    by blast
  from Seq.IH(2) [OF m2] obtain w2 where w2: "fst m1 = w2 @ fst m"
    "digits_only b \<longrightarrow> list_all is_digit w2" "never_empty b \<longrightarrow> w2 \<noteq> []"
    by blast
  have "s = (w1 @ w2) @ fst m"
    using w1 w2 by simp
  moreover have "digits_only (Seq a b) \<longrightarrow> list_all is_digit (w1 @ w2)"
    using w1 w2 by simp
  moreover have "never_empty (Seq a b) \<longrightarrow> w1 @ w2 \<noteq> []"
    using w1 w2 by auto
  ultimately show ?case
    by blast
next
  case (Alt a b)
  from Alt.prems have "m \<in> set (rmatch ic a s g) \<or> m \<in> set (rmatch ic b s g)"
    by simp
  with Alt.IH show ?case
    by (metis digits_only.simps(5) never_empty.simps(5))
next
  case (Grp n a)
  from Grp.prems obtain m1 where m1: "m1 \<in> set (rmatch ic a s g)" and m: "fst m = fst m1"
    by auto
  from Grp.IH [OF m1] m show ?case
    by simp
next
  case (Opt a)
  from Opt.prems have "m \<in> set (rmatch ic a s g) \<or> m = (s, g)"
    by auto
  then show ?case
  proof
    assume "m \<in> set (rmatch ic a s g)"
    from Opt.IH [OF this] show ?thesis
      by auto
  next
    assume "m = (s, g)"
    then show ?thesis
      by simp
  qed
qed

lemma rmatch_width:
  "m \<in> set (rmatch ic r s g) \<Longrightarrow> width r = Some k \<Longrightarrow> length s \<le> length (fst m) + k"
proof (induction r arbitrary: s g m k)
  case Eps
  then show ?case by simp
next
  case (C c)
  from C.prems show ?case
    by (cases s) (auto split: if_splits)
next
  case (Rep c lo hi greedy)
  from Rep.prems(1) obtain n where n: "n \<in> set (rep_counts ic c lo hi greedy s)"
    and m: "fst m = drop n s"
    by auto
  from Rep.prems(2) have "hi = Some k"
    by simp
  with n have "n \<le> k"
    by (auto simp: rep_counts_def Let_def split: if_splits)
  then show ?case
    unfolding m by simp
next
  case (Seq a b)
  from Seq.prems(1) obtain m1 where m1: "m1 \<in> set (rmatch ic a s g)"
    and m2: "m \<in> set (rmatch ic b (fst m1) (snd m1))"
    by auto
  from Seq.prems(2) obtain x y where x: "width a = Some x" and y: "width b = Some y"
    and k: "k = x + y"
    by (auto split: option.splits)
  from Seq.IH(1) [OF m1 x] Seq.IH(2) [OF m2 y] show ?case
    unfolding k by simp
next
  case (Alt a b)
  from Alt.prems(1) have m: "m \<in> set (rmatch ic a s g) \<or> m \<in> set (rmatch ic b s g)"
    by simp
  from Alt.prems(2) obtain x y where x: "width a = Some x" and y: "width b = Some y"
    and k: "k = max x y"
    by (auto split: option.splits)
  from m show ?case
  proof
    assume "m \<in> set (rmatch ic a s g)"
    from Alt.IH(1) [OF this x] show ?thesis
      unfolding k by simp
  next
    assume "m \<in> set (rmatch ic b s g)"
    from Alt.IH(2) [OF this y] show ?thesis
      unfolding k by simp
  qed
next
  case (Grp n a)
  from Grp.prems(1) obtain m1 where m1: "m1 \<in> set (rmatch ic a s g)" and m: "fst m = fst m1"
    by auto
  from Grp.prems(2) have "width a = Some k"
    by simp
  from Grp.IH [OF m1 this] show ?case
    unfolding m .
next
  case (Opt a)
  from Opt.prems(1) have m: "m \<in> set (rmatch ic a s g) \<or> m = (s, g)"
    by auto
  from Opt.prems(2) have w: "width a = Some k"
    by simp
  from m show ?case
  proof
    assume "m \<in> set (rmatch ic a s g)"
    from Opt.IH [OF this w] show ?thesis .
  next
    assume "m = (s, g)"
    then show ?thesis
      by simp
  qed
qed

text \<open>
  Hence the groups of a match, and of a search, that the classification marks are strings
  of one to four digits, and the groups that take part in every match are set.
\<close>

lemma rmatch_groups:
  assumes "m \<in> set (rmatch ic r s g)" and "digit_groups D r" and "digit_caps D g"
  shows "digit_caps D (snd m)"
  using assms
proof (induction r arbitrary: s g m)
  case Eps
  from Eps.prems(1) Eps.prems(3) show ?case by simp
next
  case (C k)
  from C.prems(1) have "snd m = g"
    by (cases s) (auto split: if_splits)
  with C.prems(3) show ?case
    by simp
next
  case (Rep k lo hi greedy)
  from Rep.prems(1) have "snd m = g"
    by auto
  with Rep.prems(3) show ?case
    by simp
next
  case (Seq a b)
  from Seq.prems(1) obtain m1 where m1: "m1 \<in> set (rmatch ic a s g)"
    and m2: "m \<in> set (rmatch ic b (fst m1) (snd m1))"
    by auto
  from Seq.prems have d: "digit_groups D a" "digit_groups D b"
    by simp_all
  from Seq.IH(1) [OF m1 d(1) Seq.prems(3)] have "digit_caps D (snd m1)" .
  from Seq.IH(2) [OF m2 d(2) this] show ?case .
next
  case (Alt a b)
  from Alt.prems(1) have m: "m \<in> set (rmatch ic a s g) \<or> m \<in> set (rmatch ic b s g)"
    by simp
  from Alt.prems have d: "digit_groups D a" "digit_groups D b"
    by simp_all
  from m show ?case
  proof
    assume "m \<in> set (rmatch ic a s g)"
    from Alt.IH(1) [OF this d(1) Alt.prems(3)] show ?thesis .
  next
    assume "m \<in> set (rmatch ic b s g)"
    from Alt.IH(2) [OF this d(2) Alt.prems(3)] show ?thesis .
  qed
next
  case (Grp n a)
  from Grp.prems(1) obtain m1 where m1: "m1 \<in> set (rmatch ic a s g)"
    and m: "snd m = (n, take (length s - length (fst m1)) s) # snd m1"
    by auto
  from Grp.prems have d: "digit_groups D a"
    "n \<in> D \<longrightarrow> digits_only a \<and> never_empty a \<and> (\<exists>k\<le>4. width a = Some k)"
    by (auto simp: few_digits_def split: option.splits)
  from Grp.IH [OF m1 d(1) Grp.prems(3)] have c: "digit_caps D (snd m1)" .
  from rmatch_consumes [OF m1] obtain w where w: "s = w @ fst m1"
    "digits_only a \<longrightarrow> list_all is_digit w" "never_empty a \<longrightarrow> w \<noteq> []"
    by blast
  from w(1) have cap: "take (length s - length (fst m1)) s = w"
    by simp
  have "length w \<le> 4" if "n \<in> D"
  proof -
    from that d(2) obtain k where k: "k \<le> 4" "width a = Some k"
      by blast
    from rmatch_width [OF m1 k(2)] w(1) k(1) show ?thesis
      by simp
  qed
  then have "digit_caps D ((n, w) # snd m1)"
    using w(2,3) d(2) c unfolding digit_caps_def by auto
  then show ?case
    unfolding m cap .
next
  case (Opt a)
  from Opt.prems(1) have m: "m \<in> set (rmatch ic a s g) \<or> m = (s, g)"
    by auto
  from Opt.prems have d: "digit_groups D a"
    by simp
  from m show ?case
  proof
    assume "m \<in> set (rmatch ic a s g)"
    from Opt.IH [OF this d Opt.prems(3)] show ?thesis .
  next
    assume "m = (s, g)"
    with Opt.prems(3) show ?thesis
      by simp
  qed
qed

lemma rmatch_sure:
  assumes "m \<in> set (rmatch ic r s g)"
  shows "sure_groups r \<union> dom (map_of g) \<subseteq> dom (map_of (snd m))"
  using assms
proof (induction r arbitrary: s g m)
  case Eps
  then show ?case by simp
next
  case (C k)
  from C.prems have "snd m = g"
    by (cases s) (auto split: if_splits)
  then show ?case
    by simp
next
  case (Rep k lo hi greedy)
  from Rep.prems have "snd m = g"
    by auto
  then show ?case
    by simp
next
  case (Seq a b)
  from Seq.prems obtain m1 where m1: "m1 \<in> set (rmatch ic a s g)"
    and m2: "m \<in> set (rmatch ic b (fst m1) (snd m1))"
    by auto
  from Seq.IH(1) [OF m1] Seq.IH(2) [OF m2]
  have "sure_groups a \<union> dom (map_of g) \<subseteq> dom (map_of (snd m1))"
    and "sure_groups b \<union> dom (map_of (snd m1)) \<subseteq> dom (map_of (snd m))" .
  then have "(sure_groups a \<union> sure_groups b) \<union> dom (map_of g) \<subseteq> dom (map_of (snd m))"
    by blast
  then show ?case
    by simp
next
  case (Alt a b)
  from Alt.prems have "m \<in> set (rmatch ic a s g) \<or> m \<in> set (rmatch ic b s g)"
    by simp
  then show ?case
  proof
    assume "m \<in> set (rmatch ic a s g)"
    from Alt.IH(1) [OF this]
    have "(sure_groups a \<inter> sure_groups b) \<union> dom (map_of g) \<subseteq> dom (map_of (snd m))"
      by blast
    then show ?thesis
      by simp
  next
    assume "m \<in> set (rmatch ic b s g)"
    from Alt.IH(2) [OF this]
    have "(sure_groups a \<inter> sure_groups b) \<union> dom (map_of g) \<subseteq> dom (map_of (snd m))"
      by blast
    then show ?thesis
      by simp
  qed
next
  case (Grp n a)
  from Grp.prems obtain m1 where m1: "m1 \<in> set (rmatch ic a s g)"
    and m: "snd m = (n, take (length s - length (fst m1)) s) # snd m1"
    by auto
  have d: "dom (map_of (snd m)) = insert n (dom (map_of (snd m1)))"
    unfolding m dom_map_of_conv_image_fst by simp
  from Grp.IH [OF m1] have "sure_groups a \<union> dom (map_of g) \<subseteq> dom (map_of (snd m1))" .
  then have "insert n (sure_groups a) \<union> dom (map_of g)
      \<subseteq> insert n (dom (map_of (snd m1)))"
    by blast
  then show ?case
    unfolding d sure_groups.simps .
next
  case (Opt a)
  from Opt.prems have "m \<in> set (rmatch ic a s g) \<or> m = (s, g)"
    by auto
  then show ?case
  proof
    assume "m \<in> set (rmatch ic a s g)"
    from Opt.IH [OF this] show ?thesis
      by simp
  next
    assume "m = (s, g)"
    then show ?thesis
      by simp
  qed
qed

lemma first_match_groups:
  assumes "rmatch ic r s [] = m # ms" and "digit_groups D r"
  shows "digit_caps D (snd m) \<and> sure_groups r \<subseteq> dom (map_of (snd m))"
proof -
  from assms(1) have m: "m \<in> set (rmatch ic r s [])"
    by simp
  have "digit_caps D []"
    by (simp add: digit_caps_def)
  from rmatch_groups [OF m assms(2) this] rmatch_sure [OF m] show ?thesis
    by simp
qed

lemma search_groups:
  assumes "re_search ic r s = Some g" and "digit_groups D r"
  shows "digit_caps D g \<and> sure_groups r \<subseteq> dom (map_of g)"
  using assms(1)
proof (induction s)
  case Nil
  then obtain m ms where "rmatch ic r [] [] = m # ms" and "g = snd m"
    by (auto split: list.splits)
  with first_match_groups [OF _ assms(2)] show ?case
    by blast
next
  case (Cons c s)
  show ?case
  proof (cases "rmatch ic r (c # s) []")
    case Nil
    with Cons show ?thesis
      by simp
  next
    case (Cons m ms)
    with Cons.prems have "g = snd m"
      by simp
    with first_match_groups [OF Cons assms(2)] show ?thesis
      by blast
  qed
qed

text \<open>
  \<^verbatim>\<open>int\<close> converts every such string, Unicode digits included, to a number below ten
  thousand.
\<close>

lemma is_digit_iff: "is_digit c \<longleftrightarrow> (\<exists>z \<in> set nd_zeros. z \<le> c \<and> c < z + 10)"
proof -
  have "is_digit c \<longleftrightarrow> filter (\<lambda>z. z \<le> c \<and> c < z + 10) nd_zeros \<noteq> []"
    unfolding is_digit_def decimal_value_def by (simp split: list.splits)
  then show ?thesis
    unfolding filter_empty_conv by blast
qed

lemma digit_is_plain:
  assumes "is_digit c"
  shows "\<not> int_space c \<and> c \<noteq> 0x5F \<and> c \<noteq> 0x2D \<and> c \<noteq> 0x2B"
proof -
  from assms obtain z where z: "z \<in> set nd_zeros" and c: "z \<le> c" "c < z + 10"
    unfolding is_digit_iff by blast
  from z have "z = 0x30 \<or> (0x660 \<le> z \<and> z \<le> 0x1090) \<or> (0x17E0 \<le> z \<and> z \<le> 0x1C50)
      \<or> 0xA620 \<le> z"
    unfolding nd_zeros_def by auto
  with c have "(0x30 \<le> c \<and> c \<le> 0x39) \<or> (0x660 \<le> c \<and> c \<le> 0x1099)
      \<or> (0x17E0 \<le> c \<and> c \<le> 0x1C59) \<or> 0xA620 \<le> c"
    by arith
  then show ?thesis
    unfolding int_space_def unicode_space_def by arith
qed

lemma decimal_value_less:
  assumes "decimal_value c = Some d"
  shows "d < 10"
proof (cases "filter (\<lambda>z. z \<le> c \<and> c < z + 10) nd_zeros")
  case Nil
  with assms show ?thesis
    by (simp add: decimal_value_def)
next
  case (Cons z zs)
  then have "z \<in> set (filter (\<lambda>z. z \<le> c \<and> c < z + 10) nd_zeros)"
    by simp
  then have "z \<le> c \<and> c < z + 10"
    by simp
  moreover from assms Cons have "d = c - z"
    by (simp add: decimal_value_def)
  ultimately show ?thesis
    by arith
qed

lemma int_digits_unicode:
  assumes "list_all is_digit cs" and "cs \<noteq> [] \<or> prev"
  shows "\<exists>ds. int_digits prev cs = Some ds \<and> length ds = length cs \<and> (\<forall>d\<in>set ds. d < 10)"
  using assms
proof (induction cs arbitrary: prev)
  case Nil
  then show ?case by simp
next
  case (Cons c cs)
  from Cons.prems(1) have c: "is_digit c" and cs: "list_all is_digit cs"
    by simp_all
  from c obtain d where d: "decimal_value c = Some d"
    unfolding is_digit_def by blast
  from digit_is_plain [OF c] have u: "c \<noteq> 0x5F"
    by simp
  from Cons.IH [OF cs, of True] obtain ds where ds: "int_digits True cs = Some ds"
    "length ds = length cs" "\<forall>d\<in>set ds. d < 10"
    by auto
  from d u ds(1) have "int_digits prev (c # cs) = Some (d # ds)"
    by simp
  moreover from ds(2) have "length (d # ds) = length (c # cs)"
    by simp
  moreover from decimal_value_less [OF d] ds(3) have "\<forall>x\<in>set (d # ds). x < 10"
    by simp
  ultimately show ?case
    by blast
qed

lemma digits_value_less:
  assumes "\<forall>d\<in>set ds. d < 10"
  shows "foldl (\<lambda>a d. 10 * a + d) a ds < (a + (1 :: nat)) * 10 ^ length ds"
  using assms
proof (induction ds arbitrary: a)
  case Nil
  then show ?case by simp
next
  case (Cons d ds)
  then have d: "d < 10" and ds: "\<forall>d\<in>set ds. d < 10"
    by simp_all
  from d have "(10 * a + d + 1) * 10 ^ length ds \<le> (10 * a + 10) * 10 ^ length ds"
    by (intro mult_right_mono) simp_all
  also have "\<dots> = (a + 1) * 10 ^ length (d # ds)"
    by (simp add: algebra_simps)
  finally show ?case
    using Cons.IH [OF ds, of "10 * a + d"] by simp
qed

lemma py_int_unicode:
  assumes "list_all is_digit cs" and "cs \<noteq> []" and "length cs \<le> 4"
  shows "\<exists>i. py_int cs = Some i \<and> 0 \<le> i \<and> i < 10000"
proof -
  from assms(1) have "\<forall>c\<in>set cs. \<not> int_space c"
    unfolding list_all_iff using digit_is_plain by blast
  then have s: "int_strip cs = cs"
    by (rule int_strip_id)
  from assms(1,2) have "is_digit (hd cs)"
    by (cases cs) simp_all
  from digit_is_plain [OF this] have h: "hd cs \<noteq> 0x2D" "hd cs \<noteq> 0x2B"
    by simp_all
  from int_digits_unicode [OF assms(1), of False] assms(2)
  obtain ds where ds: "int_digits False cs = Some ds" "length ds = length cs"
    "\<forall>d\<in>set ds. d < 10"
    by blast
  from ds(2) assms(3) have l: "\<not> int_max_str_digits < length ds"
    using limit_bounds(3) by simp
  have "(10 :: nat) ^ length ds \<le> 10 ^ 4"
    using ds(2) assms(3) by (intro power_increasing) simp_all
  with digits_value_less [OF ds(3), of 0] have v: "foldl (\<lambda>a d. 10 * a + d) 0 ds < 10000"
    by simp
  have "py_int cs = Some (int (foldl (\<lambda>a d. 10 * a + d) 0 ds))"
    using s h ds(1) l by (simp add: py_int_def Let_def)
  with v show ?thesis
    by simp
qed

lemma grp_int_digits:
  assumes "digit_caps D g" and "n \<in> D" and "n \<in> dom (map_of g)"
  shows "\<exists>i. grp_int g n = Some i \<and> 0 \<le> i \<and> i < 10000"
proof -
  from assms(3) obtain w where w: "map_of g n = Some w"
    by blast
  with assms(1,2) have "list_all is_digit w" and "w \<noteq> []" and "length w \<le> 4"
    unfolding digit_caps_def by blast+
  from py_int_unicode [OF this] w show ?thesis
    by (simp add: grp_int_def grp_def)
qed

text \<open>
  The patterns of the extractors are of this kind. So the conversions in
  \<^verbatim>\<open>extract_time_from_text\<close> and \<^verbatim>\<open>extract_date_from_text\<close> never raise, the branches of
  the model in which they do are never taken, and the hours and minutes that are
  formatted are far below the limit on the digits of an integer.
\<close>

lemma lit_groups: "digit_groups D (lit s)" "sure_groups (lit s) = {}"
  by (induction s) (simp_all add: lit_def)

lemma time_patterns_groups:
  assumes "p \<in> set time_patterns"
  shows "digit_groups {1, 2} p \<and> 1 \<in> sure_groups p"
  using assms
  by (auto simp: time_patterns_def seqs_def alts_def d12_def d2_def few_digits_def lit_groups)

lemma time_label_groups:
  "digit_groups {1, 2} time_label_pattern \<and> {1, 2} \<subseteq> sure_groups time_label_pattern"
  by (simp add: time_label_pattern_def seqs_def alts_def d12_def d2_def few_digits_def
      lit_groups)

lemma year20_groups: "few_digits year20" "digit_groups D year20" "sure_groups year20 = {}"
  by (simp_all add: year20_def few_digits_def seqs_def lit_def asc_def d2_def)

lemma date_patterns_groups:
  assumes "p \<in> set date_patterns \<or> p = date_label_pattern"
  shows "digit_groups {1, 2, 3} p \<and> {1, 2, 3} \<subseteq> sure_groups p"
  using assms
  by (auto simp: date_patterns_def date_label_pattern_def seqs_def alts_def d12_def d2_def
      slash_or_dash_def few_digits_def [of "Rep k lo hi greedy" for k lo hi greedy]
      year20_groups lit_groups)

lemma time_groups_converted:
  assumes "p \<in> set time_patterns" and "re_search True p text = Some g"
  shows "\<exists>hour minute. time_of_groups g = Some (hhmm hour minute)
    \<and> \<bar>hour\<bar> < 10 ^ int_max_str_digits \<and> \<bar>minute\<bar> < 10 ^ int_max_str_digits"
proof -
  from time_patterns_groups [OF assms(1)] search_groups [OF assms(2), of "{1, 2}"]
  have c: "digit_caps {1, 2} g" and s: "1 \<in> dom (map_of g)"
    by auto
  from grp_int_digits [OF c _ s] obtain h where h: "grp_int g 1 = Some h" "0 \<le> h" "h < 10000"
    by auto
  have "\<exists>m. (case grp g 2 of None \<Rightarrow> Some 0 | Some s \<Rightarrow> if s = [] then Some 0 else py_int s)
      = Some m \<and> 0 \<le> m \<and> m < 10000"
  proof (cases "grp g 2")
    case None
    then show ?thesis
      by simp
  next
    case (Some w)
    then have "2 \<in> dom (map_of g)"
      by (auto simp: grp_def)
    from grp_int_digits [OF c _ this] Some show ?thesis
      by (auto simp: grp_int_def)
  qed
  then obtain m where m: "(case grp g 2 of None \<Rightarrow> Some 0
      | Some s \<Rightarrow> if s = [] then Some 0 else py_int s) = Some m" "0 \<le> m" "m < 10000"
    by blast
  define period where "period = (case grp g 3 of None \<Rightarrow> None
    | Some s \<Rightarrow> if s = [] then None else Some s)"
  define hour where "hour =
    (if period \<in> set [Some pm_short, Some (asc ''PM''), Some pm_long] \<and> h \<noteq> 12
     then h + 12
     else if period \<in> set [Some am_short, Some (asc ''AM''), Some am_long] \<and> h = 12
     then 0
     else h)"
  have "time_of_groups g = Some (hhmm hour m)"
    unfolding time_of_groups_def h(1) m(1) hour_def period_def by (simp add: Let_def)
  moreover from h have "\<bar>hour\<bar> < 10000000"
    unfolding hour_def by simp
  moreover from m have "\<bar>m\<bar> < 10000000"
    by simp
  ultimately show ?thesis
    using small_within_limit by blast
qed

lemma time_label_converted:
  assumes "re_search True time_label_pattern text = Some g"
  shows "\<exists>hour minute. grp_int g 1 = Some hour \<and> grp_int g 2 = Some minute
    \<and> \<bar>hour\<bar> < 10 ^ int_max_str_digits \<and> \<bar>minute\<bar> < 10 ^ int_max_str_digits"
proof -
  from time_label_groups search_groups [OF assms, of "{1, 2}"]
  have c: "digit_caps {1, 2} g" and s: "1 \<in> dom (map_of g)" "2 \<in> dom (map_of g)"
    by auto
  from grp_int_digits [OF c _ s(1)] obtain h where h: "grp_int g 1 = Some h" "0 \<le> h" "h < 10000"
    by auto
  from grp_int_digits [OF c _ s(2)] obtain m where m: "grp_int g 2 = Some m" "0 \<le> m" "m < 10000"
    by auto
  from h m have "\<bar>h\<bar> < 10000000" "\<bar>m\<bar> < 10000000"
    by simp_all
  with h(1) m(1) show ?thesis
    using small_within_limit by blast
qed

lemma date_groups_converted:
  assumes "p \<in> set date_patterns \<or> p = date_label_pattern" and "re_search ic p text = Some g"
  shows "grp g 1 \<noteq> None
    \<and> (\<exists>a b c. grp_int g 1 = Some a \<and> grp_int g 2 = Some b \<and> grp_int g 3 = Some c)"
proof -
  from date_patterns_groups [OF assms(1)] search_groups [OF assms(2), of "{1, 2, 3}"]
  have c: "digit_caps {1, 2, 3} g"
    and s: "1 \<in> dom (map_of g)" "2 \<in> dom (map_of g)" "3 \<in> dom (map_of g)"
    by auto
  from grp_int_digits [OF c _ s(1)] grp_int_digits [OF c _ s(2)] grp_int_digits [OF c _ s(3)]
  have "\<exists>a b c. grp_int g 1 = Some a \<and> grp_int g 2 = Some b \<and> grp_int g 3 = Some c"
    by auto
  moreover from s(1) have "grp g 1 \<noteq> None"
    by (auto simp: grp_def)
  ultimately show ?thesis
    by blast
qed

end
